theory Spec2Isabelle
  imports Complex_Main
begin

section \<open>Contagion model: data\<close>

text \<open>
  The enumerations of \<^verbatim>\<open>contagionModel01.py\<close> and the exceptions its code paths can
  raise: \<^verbatim>\<open>random.choice\<close> on an empty sequence and \<^verbatim>\<open>[...][0]\<close> on an empty list
  raise IndexError, a trace lookup at a missing coordinate raises KeyError, a trace lookup at
  a duplicated coordinate yields a series whose truth value raises ValueError, and a
  neighbour query for a node that is not in the graph raises NetworkXError, reading a local
  variable before its first assignment raises UnboundLocalError.
\<close>

datatype State = HEALTHY | INFECTED

datatype Event = INFECT | RECOVER | NOTHING

datatype error = IndexError | KeyError | ValueError | NetworkXError | UnboundLocalError

text \<open>
  The module-level generator of \<^verbatim>\<open>random\<close>. Its output is kept abstract: a generator
  state is a tape of outcomes and a cursor; every call of \<^verbatim>\<open>random.random()\<close> or
  \<^verbatim>\<open>random.choice\<close> consumes one cell. \<^verbatim>\<open>random.random()\<close> returns the float of the
  cell, \<^verbatim>\<open>random.choice(seq)\<close> the element at the cell's pick reduced below \<^verbatim>\<open>len(seq)\<close>.
  Every behaviour of the real generator is the behaviour of some tape.
\<close>

record rng =
  floats :: "nat \<Rightarrow> real"
  picks :: "nat \<Rightarrow> nat"
  cursor :: nat

definition random_random :: "rng \<Rightarrow> real \<times> rng" where
  "random_random g = (floats g (cursor g), g\<lparr>cursor := Suc (cursor g)\<rparr>)"

definition random_choice :: "'a list \<Rightarrow> rng \<Rightarrow> error + ('a \<times> rng)" where
  "random_choice seq g =
     (if seq = [] then Inl IndexError
      else Inr (seq ! (picks g (cursor g) mod length seq), g\<lparr>cursor := Suc (cursor g)\<rparr>))"

text \<open>
  \<^verbatim>\<open>random.seed(1)\<close> replaces the generator state, whatever it was, by the state that
  belongs to the seed; that state is the parameter \<open>seeded\<close>.
\<close>

definition random_seed :: "rng \<Rightarrow> rng \<Rightarrow> rng" where
  "random_seed seeded g = seeded"

text \<open>
  An agent. \<open>pos\<close> is the node the grid placed it on (\<open>None\<close> before placement).
  The no-cause sentinel of the source is the integer \<open>-100\<close>.
\<close>

record DiseaseAgent =
  unique_id :: int
  pos :: "int option"
  state :: State
  event :: Event
  cause :: int

text \<open>One row of the data frame of agent variables; its index is (Step, AgentID).\<close>

record row =
  col_State :: State
  col_Event :: Event
  col_Cause :: int

type_synonym trace = "((int \<times> int) \<times> row) list"

record Intervention =
  itrace :: trace

text \<open>
  The model. \<open>G\<close> is the graph as an adjacency list, \<open>agents\<close> is the scheduler's agent
  collection in registration order (an agent object is referred to by its index in it),
  \<open>steps\<close> and \<open>time\<close> are the scheduler's counters, \<open>datacollector\<close> holds the
  agent records collected so far.
\<close>

record DiseaseModel =
  num_agents :: nat
  initInfected :: "int list"
  percInfect :: real
  percRecover :: real
  intervention :: "Intervention option"
  G :: "(int \<times> int list) list"
  agents :: "DiseaseAgent list"
  steps :: int
  time :: int
  datacollector :: trace

section \<open>Agents\<close>

definition DiseaseAgent_init :: "int \<Rightarrow> DiseaseAgent" where
  "DiseaseAgent_init i =
     \<lparr>unique_id = i, pos = None, state = HEALTHY, event = NOTHING, cause = -100\<rparr>"

text \<open>\<^verbatim>\<open>infect(self, sender_id=-1)\<close>: the default sender is \<open>-1\<close>.\<close>

definition infect :: "int \<Rightarrow> DiseaseAgent \<Rightarrow> DiseaseAgent" where
  "infect sender_id a = a\<lparr>event := INFECT, cause := sender_id, state := INFECTED\<rparr>"

definition infect_default :: "DiseaseAgent \<Rightarrow> DiseaseAgent" where
  "infect_default a = infect (-1) a"

definition recover :: "DiseaseAgent \<Rightarrow> DiseaseAgent" where
  "recover a = a\<lparr>event := RECOVER, state := HEALTHY, cause := -100\<rparr>"

text \<open>A method call on the agent object with index \<open>r\<close>.\<close>

definition on_agent :: "nat \<Rightarrow> (DiseaseAgent \<Rightarrow> DiseaseAgent) \<Rightarrow> DiseaseModel \<Rightarrow> DiseaseModel" where
  "on_agent r f m = m\<lparr>agents := (agents m)[r := f (agents m ! r)]\<rparr>"

section \<open>Topology and grid\<close>

text \<open>\<^verbatim>\<open>nx.complete_graph(n)\<close>: nodes \<open>0..n-1\<close>, every node adjacent to all others.\<close>

definition complete_graph :: "nat \<Rightarrow> (int \<times> int list) list" where
  "complete_graph n =
     map (\<lambda>i. (int i, map int (filter (\<lambda>j. j \<noteq> i) [0..<n]))) [0..<n]"

definition nodes :: "(int \<times> int list) list \<Rightarrow> int list" where
  "nodes g = map fst g"

text \<open>
  \<^verbatim>\<open>grid.get_neighbors(pos, include_center=False)\<close>: the adjacency of the node, the node
  itself not added.
\<close>

definition get_neighbors :: "(int \<times> int list) list \<Rightarrow> int option \<Rightarrow> error + int list" where
  "get_neighbors g p =
     (case p of None \<Rightarrow> Inl NetworkXError
      | Some n \<Rightarrow> (case map_of g n of None \<Rightarrow> Inl NetworkXError | Some ns \<Rightarrow> Inr ns))"

text \<open>
  \<^verbatim>\<open>grid.get_cell_list_contents(nodes)\<close>: the agent objects placed on the nodes, node by
  node.
\<close>

definition get_cell_list_contents :: "DiseaseModel \<Rightarrow> int list \<Rightarrow> nat list" where
  "get_cell_list_contents m ns =
     concat (map (\<lambda>n. filter (\<lambda>r. pos (agents m ! r) = Some n) [0..<length (agents m)]) ns)"

definition place_agent :: "DiseaseAgent \<Rightarrow> int \<Rightarrow> DiseaseAgent" where
  "place_agent a node = a\<lparr>pos := Some node\<rparr>"

section \<open>The agent's transition rule and the scheduler\<close>

definition DiseaseAgent_step :: "nat \<Rightarrow> DiseaseModel \<Rightarrow> rng \<Rightarrow> error + (DiseaseModel \<times> rng)" where
  "DiseaseAgent_step r m g =
     (let (rand_inf, g1) = random_random g;
          (rand_rec, g2) = random_random g1
      in case get_neighbors (G m) (pos (agents m ! r)) of
           Inl e \<Rightarrow> Inl e
         | Inr neighbour_nodes \<Rightarrow>
             (let neighbour_agents = get_cell_list_contents m neighbour_nodes
              in case random_choice neighbour_agents g2 of
                   Inl e \<Rightarrow> Inl e
                 | Inr (neighbour, g3) \<Rightarrow>
                     (let m1 = (if state (agents m ! r) = INFECTED \<and> rand_inf < percInfect m
                                then (if \<not> state (agents m ! neighbour) = INFECTED
                                      then on_agent neighbour (infect (unique_id (agents m ! r))) m
                                      else m)
                                else m);
                          m2 = (if state (agents m1 ! r) = INFECTED \<and> rand_rec < percRecover m1
                                then on_agent r recover m1
                                else m1)
                      in Inr (m2, g3))))"

text \<open>
  \<^verbatim>\<open>RandomSingleActivation.step\<close>: one agent drawn from the agent collection steps, then
  both counters advance.
\<close>

definition RandomSingleActivation_step :: "DiseaseModel \<Rightarrow> rng \<Rightarrow> error + (DiseaseModel \<times> rng)" where
  "RandomSingleActivation_step m g =
     (case random_choice [0..<length (agents m)] g of
        Inl e \<Rightarrow> Inl e
      | Inr (r, g1) \<Rightarrow>
          (case DiseaseAgent_step r m g1 of
             Inl e \<Rightarrow> Inl e
           | Inr (m1, g2) \<Rightarrow> Inr (m1\<lparr>steps := steps m1 + 1, time := time m1 + 1\<rparr>, g2)))"

section \<open>The model\<close>

definition DiseaseModel_init ::
  "nat \<Rightarrow> int list \<Rightarrow> real \<Rightarrow> real \<Rightarrow> Intervention option \<Rightarrow> DiseaseModel" where
  "DiseaseModel_init N initInf pInf pRec iv =
     (let g = complete_graph N;
          created = map (\<lambda>(i, node). place_agent (DiseaseAgent_init (int i)) node)
                      (enumerate 0 (nodes g));
          seeded = map (\<lambda>a. if unique_id a \<in> set initInf then infect_default a else a) created
      in \<lparr>num_agents = N, initInfected = initInf, percInfect = pInf, percRecover = pRec,
          intervention = iv, G = g, agents = seeded, steps = 0, time = 0,
          datacollector = []\<rparr>)"

definition reset_events :: "DiseaseModel \<Rightarrow> DiseaseModel" where
  "reset_events m = m\<lparr>agents := map (\<lambda>a. a\<lparr>event := NOTHING, cause := -100\<rparr>) (agents m)\<rparr>"

text \<open>
  Modelled from the spec: the data collector (a library class) is not part of the sources.
  Section 4.4 of the specification has it write, for every agent, one entry
  \<open>(tick, id) \<mapsto> {state, event, cause}\<close> keyed by the completed tick, ticks counted
  from \<open>0\<close>; after the scheduler's increment the completed tick is \<open>steps - 1\<close>, the
  tick \<^verbatim>\<open>Intervention.apply\<close> computes as well.
\<close>

definition collect :: "DiseaseModel \<Rightarrow> DiseaseModel" where
  "collect m =
     m\<lparr>datacollector := datacollector m @
         map (\<lambda>a. ((steps m - 1, unique_id a),
                    \<lparr>col_State = state a, col_Event = event a, col_Cause = cause a\<rparr>))
             (agents m)\<rparr>"

text \<open>
  \<^verbatim>\<open>trace['Event'][(tick, idx)]\<close>: no row at the coordinate raises KeyError; one row
  gives its event; several rows give a series, which has no truth value.
\<close>

definition trace_Event :: "trace \<Rightarrow> int \<times> int \<Rightarrow> error + Event" where
  "trace_Event tr k =
     (case filter (\<lambda>e. fst e = k) tr of
        [] \<Rightarrow> Inl KeyError
      | [e] \<Rightarrow> Inr (col_Event (snd e))
      | _ \<Rightarrow> Inl ValueError)"

text \<open>\<^verbatim>\<open>[a for a in agents if a.unique_id == idx][0]\<close>\<close>

definition get_agent_by_id :: "DiseaseAgent list \<Rightarrow> int \<Rightarrow> error + nat" where
  "get_agent_by_id ags idx =
     (case filter (\<lambda>r. unique_id (ags ! r) = idx) [0..<length ags] of
        [] \<Rightarrow> Inl IndexError
      | r # _ \<Rightarrow> Inr r)"

text \<open>
  The loop of \<^verbatim>\<open>Intervention.apply\<close> over the ids; the second operand of \<^verbatim>\<open>and\<close> is
  evaluated only when the agent's event is INFECT.
\<close>

fun apply_loop :: "trace \<Rightarrow> int \<Rightarrow> int list \<Rightarrow> DiseaseModel \<Rightarrow> error + DiseaseModel" where
  "apply_loop tr tick [] m = Inr m"
| "apply_loop tr tick (idx # ids) m =
     (case get_agent_by_id (agents m) idx of
        Inl e \<Rightarrow> Inl e
      | Inr a \<Rightarrow>
          (if event (agents m ! a) = INFECT
           then (case trace_Event tr (tick, idx) of
                   Inl e \<Rightarrow> Inl e
                 | Inr ev \<Rightarrow>
                     (if ev \<noteq> INFECT then apply_loop tr tick ids (on_agent a recover m)
                      else apply_loop tr tick ids m))
           else apply_loop tr tick ids m))"

definition Intervention_apply :: "Intervention \<Rightarrow> DiseaseModel \<Rightarrow> error + DiseaseModel" where
  "Intervention_apply iv m =
     (let tick = steps m - 1
      in apply_loop (itrace iv) tick (map unique_id (agents m)) m)"

definition DiseaseModel_step :: "DiseaseModel \<Rightarrow> rng \<Rightarrow> error + (DiseaseModel \<times> rng)" where
  "DiseaseModel_step m g =
     (case RandomSingleActivation_step (reset_events m) g of
        Inl e \<Rightarrow> Inl e
      | Inr (m1, g1) \<Rightarrow>
          (case (case intervention m1 of
                   None \<Rightarrow> Inr m1
                 | Some iv \<Rightarrow> Intervention_apply iv m1) of
             Inl e \<Rightarrow> Inl e
           | Inr m2 \<Rightarrow> Inr (collect m2, g1)))"

section \<open>Runs and the experiment driver\<close>

fun step_loop :: "nat \<Rightarrow> DiseaseModel \<Rightarrow> rng \<Rightarrow> error + (DiseaseModel \<times> rng)" where
  "step_loop 0 m g = Inr (m, g)"
| "step_loop (Suc n) m g =
     (case DiseaseModel_step m g of
        Inl e \<Rightarrow> Inl e
      | Inr (m1, g1) \<Rightarrow> step_loop n m1 g1)"

text \<open>
  \<^verbatim>\<open>run\<close>: the generator is seeded, the model built and stepped \<open>numTicks\<close> times; the
  result is the frame of agent variables. \<open>g\<close> is the generator state the caller leaves
  behind. The name of the run only labels the printed lines and the exported file.
\<close>

definition run ::
  "rng \<Rightarrow> rng \<Rightarrow> nat \<Rightarrow> int list \<Rightarrow> real \<Rightarrow> real \<Rightarrow> nat \<Rightarrow> Intervention option
     \<Rightarrow> error + (trace \<times> rng)" where
  "run seeded g numAgents initInf pInf pRec numTicks iv =
     (let g0 = random_seed seeded g;
          model = DiseaseModel_init numAgents initInf pInf pRec iv
      in case step_loop numTicks model g0 of
           Inl e \<Rightarrow> Inl e
         | Inr (model1, g1) \<Rightarrow> Inr (datacollector model1, g1))"

text \<open>
  The final-tick comprehension of \<^verbatim>\<open>main\<close>: the ids of the rows whose step is
  \<open>final\<close> and whose state is INFECTED (the keys are the frame's own index, so the
  lookup of a key finds its row).
\<close>

definition infected_in_final :: "trace \<Rightarrow> int \<Rightarrow> int list" where
  "infected_in_final tr final =
     map (\<lambda>e. snd (fst e)) (filter (\<lambda>e. fst (fst e) = final \<and> col_State (snd e) = INFECTED) tr)"

text \<open>\<^verbatim>\<open>"%d" % a\<close>\<close>

function str_nat :: "nat \<Rightarrow> string" where
  "str_nat n =
     (if n < 10 then [char_of (48 + n)] else str_nat (n div 10) @ [char_of (48 + n mod 10)])"
  by pat_completeness auto
termination
  by (relation "measure id") auto

definition fmt_d :: "int \<Rightarrow> string" where
  "fmt_d i = (if i < 0 then ''-'' @ str_nat (nat (- i)) else str_nat (nat i))"

text \<open>
  The local variables the three loops of \<^verbatim>\<open>main\<close> share: \<open>trace\<close> (unbound before
  the first assignment), the dictionary \<open>causal_rel\<close> (its values are lists made from
  sets, kept as sets) and the generator.
\<close>

type_synonym locals = "trace option \<times> (string \<rightharpoonup> int set) \<times> rng"

text \<open>Simple counterfactual experiment 1.\<close>

fun simpleCF1 ::
  "rng \<Rightarrow> nat \<Rightarrow> int list \<Rightarrow> real \<Rightarrow> real \<Rightarrow> nat \<Rightarrow> int list \<Rightarrow> int list \<Rightarrow> locals
     \<Rightarrow> error + locals" where
  "simpleCF1 seeded numAgents initInf pInf pRec numTicks orig [] l = Inr l"
| "simpleCF1 seeded numAgents initInf pInf pRec numTicks orig (a # as) (trace, causal_rel, g) =
     (let name = ''tr_simpleCF1_wo'' @ fmt_d a
      in case run seeded g numAgents (filter (\<lambda>b. a \<noteq> b) initInf) pInf pRec numTicks None of
           Inl e \<Rightarrow> Inl e
         | Inr (trace1, g1) \<Rightarrow>
             (let trace_infected_in_final = infected_in_final trace1 (int numTicks - 1)
              in simpleCF1 seeded numAgents initInf pInf pRec numTicks orig as
                   (Some trace1,
                    causal_rel(name \<mapsto> set orig - set trace_infected_in_final), g1)))"

text \<open>
  Simple counterfactual experiment 2: the result of \<^verbatim>\<open>run\<close> is not assigned, the
  comprehension reads the variable \<open>trace\<close> as the loop found it.
\<close>

fun simpleCF2 ::
  "rng \<Rightarrow> nat \<Rightarrow> int list \<Rightarrow> real \<Rightarrow> real \<Rightarrow> nat \<Rightarrow> int list \<Rightarrow> int list \<Rightarrow> locals
     \<Rightarrow> error + locals" where
  "simpleCF2 seeded numAgents initInf pInf pRec numTicks orig [] l = Inr l"
| "simpleCF2 seeded numAgents initInf pInf pRec numTicks orig (a # as) (trace, causal_rel, g) =
     (let name = ''tr_simpleCF2_wo'' @ fmt_d a
      in case run seeded g numAgents (filter (\<lambda>b. a \<noteq> b) initInf) pInf pRec numTicks None of
           Inl e \<Rightarrow> Inl e
         | Inr (_, g1) \<Rightarrow>
             (case trace of
                None \<Rightarrow> Inl UnboundLocalError
              | Some trace0 \<Rightarrow>
                  (let trace_infected_in_final = infected_in_final trace0 (int numTicks - 1)
                   in simpleCF2 seeded numAgents initInf pInf pRec numTicks orig as
                        (trace,
                         causal_rel(name \<mapsto> set orig - set trace_infected_in_final), g1))))"

text \<open>Intervention-based counterfactual experiment.\<close>

fun intervCF ::
  "rng \<Rightarrow> nat \<Rightarrow> int list \<Rightarrow> real \<Rightarrow> real \<Rightarrow> nat \<Rightarrow> trace \<Rightarrow> int list \<Rightarrow> int list \<Rightarrow> locals
     \<Rightarrow> error + locals" where
  "intervCF seeded numAgents initInf pInf pRec numTicks orig_trace orig [] l = Inr l"
| "intervCF seeded numAgents initInf pInf pRec numTicks orig_trace orig (a # as)
     (trace, causal_rel, g) =
     (let name = ''tr_intervCF_wo'' @ fmt_d a;
          intervention = \<lparr>itrace = orig_trace\<rparr>
      in case run seeded g numAgents (filter (\<lambda>b. a \<noteq> b) initInf) pInf pRec numTicks
                (Some intervention) of
           Inl e \<Rightarrow> Inl e
         | Inr (trace1, g1) \<Rightarrow>
             (let trace_infected_in_final = infected_in_final trace1 (int numTicks - 1)
              in intervCF seeded numAgents initInf pInf pRec numTicks orig_trace orig as
                   (Some trace1,
                    causal_rel(name \<mapsto> set orig - set trace_infected_in_final), g1)))"

text \<open>\<^verbatim>\<open>main\<close>; its result is the dictionary it prints last.\<close>

definition main :: "rng \<Rightarrow> rng \<Rightarrow> error + ((string \<rightharpoonup> int set) \<times> rng)" where
  "main seeded g =
     (let numAgents = 10;
          initInf = [0, 1];
          pInf = 0.5;
          pRec = 0.05;
          numTicks = 10;
          numTicks = numTicks * numAgents
      in case run seeded g numAgents initInf pInf pRec numTicks None of
           Inl e \<Rightarrow> Inl e
         | Inr (orig_trace, g1) \<Rightarrow>
             (let orig_infected_in_final = infected_in_final orig_trace (int numTicks - 1);
                  causal_rel = Map.empty
              in case simpleCF1 seeded numAgents initInf pInf pRec numTicks
                        orig_infected_in_final initInf (None, causal_rel, g1) of
                   Inl e \<Rightarrow> Inl e
                 | Inr l1 \<Rightarrow>
                     (case simpleCF2 seeded numAgents initInf pInf pRec numTicks
                             orig_infected_in_final initInf l1 of
                        Inl e \<Rightarrow> Inl e
                      | Inr l2 \<Rightarrow>
                          (case intervCF seeded numAgents initInf pInf pRec numTicks orig_trace
                                  orig_infected_in_final initInf l2 of
                             Inl e \<Rightarrow> Inl e
                           | Inr (_, causal_rel1, g2) \<Rightarrow> Inr (causal_rel1, g2)))))"

section \<open>Auxiliary notions\<close>

text \<open>
  The shape every model built by the constructor has and every operation keeps: the graph
  is the complete graph on the agents, and agent \<open>i\<close> has id \<open>i\<close> and sits on node
  \<open>i\<close>.
\<close>

definition wf_model :: "DiseaseModel \<Rightarrow> bool" where
  "wf_model m \<longleftrightarrow>
     num_agents m = length (agents m) \<and>
     G m = complete_graph (length (agents m)) \<and>
     map unique_id (agents m) = map int [0..<length (agents m)] \<and>
     map pos (agents m) = map (\<lambda>i. Some (int i)) [0..<length (agents m)]"

text \<open>
  The neighbour agents of agent \<open>r\<close> among \<open>n\<close> agents on the complete graph, the
  element \<^verbatim>\<open>random.choice\<close> returns, the generator after \<open>k\<close> draws, and the two
  conditionals of \<^verbatim>\<open>DiseaseAgent.step\<close> for given draws and a given neighbour.
\<close>

definition others :: "nat \<Rightarrow> nat \<Rightarrow> nat list" where
  "others n r = filter (\<lambda>j. j \<noteq> r) [0..<n]"

definition chosen :: "rng \<Rightarrow> 'a list \<Rightarrow> 'a" where
  "chosen g xs = xs ! (picks g (cursor g) mod length xs)"

definition transition :: "nat \<Rightarrow> nat \<Rightarrow> real \<Rightarrow> real \<Rightarrow> DiseaseModel \<Rightarrow> DiseaseModel" where
  "transition r neighbour rand_inf rand_rec m =
     (let m1 = (if state (agents m ! r) = INFECTED \<and> rand_inf < percInfect m
                then (if \<not> state (agents m ! neighbour) = INFECTED
                      then on_agent neighbour (infect (unique_id (agents m ! r))) m
                      else m)
                else m);
          m2 = (if state (agents m1 ! r) = INFECTED \<and> rand_rec < percRecover m1
                then on_agent r recover m1
                else m1)
      in m2)"

definition advance :: "nat \<Rightarrow> rng \<Rightarrow> rng" where
  "advance k g = g\<lparr>cursor := cursor g + k\<rparr>"

text \<open>
  The agent the scheduler activates in a tick that starts with generator \<open>g\<close>, the
  neighbour that agent draws (the scheduler's draw and the agent's two floats come first),
  and the model the scheduler leaves: events reset, the two conditionals applied, both
  counters advanced.
\<close>

definition actor :: "rng \<Rightarrow> nat \<Rightarrow> nat" where
  "actor g n = chosen g [0..<n]"

definition target :: "rng \<Rightarrow> nat \<Rightarrow> nat" where
  "target g n = chosen (advance 3 g) (others n (actor g n))"

definition scheduled :: "DiseaseModel \<Rightarrow> rng \<Rightarrow> DiseaseModel" where
  "scheduled m g =
     (let n = length (agents m);
          m1 = transition (actor g n) (target g n) (floats g (cursor g + 1))
                 (floats g (cursor g + 2)) (reset_events m)
      in m1\<lparr>steps := steps m1 + 1, time := time m1 + 1\<rparr>)"

text \<open>The model one agent step leaves, before the scheduler advances its counters.\<close>

definition activated :: "DiseaseModel \<Rightarrow> rng \<Rightarrow> DiseaseModel" where
  "activated m g =
     (let n = length (agents m)
      in transition (actor g n) (target g n) (floats g (cursor g + 1)) (floats g (cursor g + 2))
           (reset_events m))"

text \<open>
  The row captured for an agent, the keys of \<open>k\<close> consecutive ticks of \<open>n\<close> agents
  starting at tick \<open>s\<close>, and the number of entries of a trace with a given tick.
\<close>

definition snapshot :: "DiseaseAgent \<Rightarrow> row" where
  "snapshot a = \<lparr>col_State = state a, col_Event = event a, col_Cause = cause a\<rparr>"

definition tick_keys :: "nat \<Rightarrow> int \<Rightarrow> nat \<Rightarrow> (int \<times> int) list" where
  "tick_keys n s k = concat (map (\<lambda>t. map (\<lambda>i. (s + int t, int i)) [0..<n]) [0..<k])"

definition entries_at :: "trace \<Rightarrow> int \<Rightarrow> nat" where
  "entries_at tr t = length (filter (\<lambda>e. fst (fst e) = t) tr)"









text \<open>
  Two concrete generators: \<open>quiet\<close> always draws the float 0.9, which triggers neither
  infection nor recovery under the probabilities of \<^verbatim>\<open>main\<close>; \<open>eager\<close> always draws
  the float 0, which is below every positive probability.
\<close>

definition quiet :: rng where
  "quiet = \<lparr>floats = (\<lambda>_. 9 / 10), picks = (\<lambda>n. n), cursor = 0\<rparr>"

definition eager :: rng where
  "eager = \<lparr>floats = (\<lambda>_. 0), picks = (\<lambda>n. n), cursor = 0\<rparr>"

text \<open>
  A one-agent model on a graph whose single node is adjacent to itself (the constructor
  never builds such a graph).
\<close>

definition self_loop_model :: DiseaseModel where
  "self_loop_model = (DiseaseModel_init 1 [0] (1 / 2) (1 / 20) None)\<lparr>G := [(0, [0])]\<rparr>"

section \<open>Models of the constructor's shape\<close>

lemma nodes_complete_graph: "nodes (complete_graph n) = map int [0..<n]"
  by (simp add: nodes_def complete_graph_def comp_def)

lemma agents_init:
  "agents (DiseaseModel_init N ii pInf pRec iv) =
     map (\<lambda>i. if int i \<in> set ii
               then \<lparr>unique_id = int i, pos = Some (int i), state = INFECTED, event = INFECT, cause = -1\<rparr>
               else \<lparr>unique_id = int i, pos = Some (int i), state = HEALTHY, event = NOTHING, cause = -100\<rparr>)
         [0..<N]"
  by (rule nth_equalityI)
     (simp_all add: DiseaseModel_init_def Let_def nodes_complete_graph nth_enumerate_eq
        place_agent_def DiseaseAgent_init_def infect_default_def infect_def)

lemma init_fields:
  "num_agents (DiseaseModel_init N ii pInf pRec iv) = N"
  "G (DiseaseModel_init N ii pInf pRec iv) = complete_graph N"
  "steps (DiseaseModel_init N ii pInf pRec iv) = 0"
  "datacollector (DiseaseModel_init N ii pInf pRec iv) = []"
  "intervention (DiseaseModel_init N ii pInf pRec iv) = iv"
  "percInfect (DiseaseModel_init N ii pInf pRec iv) = pInf"
  "percRecover (DiseaseModel_init N ii pInf pRec iv) = pRec"
  by (simp_all add: DiseaseModel_init_def Let_def)

lemma wf_init: "wf_model (DiseaseModel_init N ii pInf pRec iv)"
  by (simp add: wf_model_def init_fields agents_init comp_def)

lemma wf_unique_id: "wf_model m \<Longrightarrow> r < length (agents m) \<Longrightarrow> unique_id (agents m ! r) = int r"
proof -
  assume a: "wf_model m" "r < length (agents m)"
  then have "map unique_id (agents m) ! r = map int [0..<length (agents m)] ! r"
    by (simp add: wf_model_def)
  with a(2) show ?thesis by simp
qed

lemma wf_pos: "wf_model m \<Longrightarrow> r < length (agents m) \<Longrightarrow> pos (agents m ! r) = Some (int r)"
proof -
  assume a: "wf_model m" "r < length (agents m)"
  then have "map pos (agents m) ! r = map (\<lambda>i. Some (int i)) [0..<length (agents m)] ! r"
    by (simp add: wf_model_def)
  with a(2) show ?thesis by simp
qed

lemma map_of_complete_graph:
  "r < n \<Longrightarrow> map_of (complete_graph n) (int r) = Some (map int (filter (\<lambda>j. j \<noteq> r) [0..<n]))"
  by (rule map_of_is_SomeI) (auto simp: complete_graph_def comp_def distinct_map inj_on_def)

lemma wf_get_neighbors:
  "wf_model m \<Longrightarrow> r < length (agents m) \<Longrightarrow>
     get_neighbors (G m) (pos (agents m ! r)) =
       Inr (map int (filter (\<lambda>j. j \<noteq> r) [0..<length (agents m)]))"
  by (simp add: get_neighbors_def wf_pos map_of_complete_graph) (simp add: wf_model_def map_of_complete_graph)

lemma filter_eq_upt: "j < n \<Longrightarrow> filter (\<lambda>r. r = j) [0..<n] = [j]"
  by (induction n) (auto simp: less_Suc_eq)

lemma filter_pos_single:
  "wf_model m \<Longrightarrow> j < length (agents m) \<Longrightarrow>
     filter (\<lambda>r. pos (agents m ! r) = Some (int j)) [0..<length (agents m)] = [j]"
proof -
  assume a: "wf_model m" "j < length (agents m)"
  have "filter (\<lambda>r. pos (agents m ! r) = Some (int j)) [0..<length (agents m)]
        = filter (\<lambda>r. r = j) [0..<length (agents m)]"
    by (rule filter_cong) (auto simp: wf_pos [OF a(1)])
  also have "\<dots> = [j]"
    using a(2) by (rule filter_eq_upt)
  finally show ?thesis .
qed

lemma wf_cell_contents:
  "wf_model m \<Longrightarrow> set js \<subseteq> {..<length (agents m)} \<Longrightarrow>
     get_cell_list_contents m (map int js) = js"
  by (induction js) (simp_all add: get_cell_list_contents_def filter_pos_single)

lemma wf_neighbour_agents:
  "wf_model m \<Longrightarrow>
     get_cell_list_contents m (map int (others (length (agents m)) r))
       = others (length (agents m)) r"
  by (rule wf_cell_contents) (auto simp: others_def)

lemma others_empty_iff: "r < n \<Longrightarrow> others n r = [] \<longleftrightarrow> n = 1"
proof
  assume r: "r < n" and e: "others n r = []"
  show "n = 1"
  proof (rule ccontr)
    assume "n \<noteq> 1"
    with r have "2 \<le> n" by simp
    then obtain j where "j < n" "j \<noteq> r" by (cases "r = 0") (auto intro: that [of 0] that [of 1])
    then have "j \<in> set (others n r)" by (simp add: others_def)
    with e show False by simp
  qed
next
  assume "r < n" "n = 1"
  then show "others n r = []" by (simp add: others_def)
qed

lemma chosen_in: "xs \<noteq> [] \<Longrightarrow> chosen g xs \<in> set xs"
  by (simp add: chosen_def)

lemma chosen_others: "r < n \<Longrightarrow> n \<noteq> 1 \<Longrightarrow> chosen g (others n r) < n \<and> chosen g (others n r) \<noteq> r"
proof -
  assume "r < n" "n \<noteq> 1"
  then have "others n r \<noteq> []" by (simp add: others_empty_iff)
  then have "chosen g (others n r) \<in> set (others n r)" by (rule chosen_in)
  then show ?thesis by (simp add: others_def)
qed

lemma random_choice_eq:
  "random_choice xs g = (if xs = [] then Inl IndexError else Inr (chosen g xs, advance 1 g))"
  by (simp add: random_choice_def chosen_def advance_def)

lemma random_random_eq: "random_random g = (floats g (cursor g), advance 1 g)"
  by (simp add: random_random_def advance_def)

lemma advance_simps [simp]:
  "floats (advance k g) = floats g" "picks (advance k g) = picks g"
  "cursor (advance k g) = cursor g + k"
  by (simp_all add: advance_def)


lemma advance_numerals:
  "advance 1 (advance 1 g) = advance 2 g" "advance 1 (advance 2 g) = advance 3 g"
  by (simp_all add: advance_def)

lemma DiseaseAgent_step_wf:
  assumes "wf_model m" "r < length (agents m)"
  shows "DiseaseAgent_step r m g =
     (if length (agents m) = 1 then Inl IndexError
      else Inr (transition r (chosen (advance 2 g) (others (length (agents m)) r))
                  (floats g (cursor g)) (floats g (Suc (cursor g))) m,
                advance 3 g))"
proof -
  have nb: "get_neighbors (G m) (pos (agents m ! r)) = Inr (map int (others (length (agents m)) r))"
    using assms by (simp add: wf_get_neighbors others_def)
  have e: "others (length (agents m)) r = [] \<longleftrightarrow> length (agents m) = 1"
    using assms(2) by (rule others_empty_iff)
  show ?thesis
    unfolding DiseaseAgent_step_def random_random_eq nb
    by (simp only: Let_def prod.case sum.case wf_neighbour_agents [OF assms(1)] random_choice_eq
          advance_numerals e transition_def advance_simps)
       simp
qed

lemma on_agent_fields [simp]:
  "num_agents (on_agent r f m) = num_agents m" "G (on_agent r f m) = G m"
  "steps (on_agent r f m) = steps m" "time (on_agent r f m) = time m"
  "datacollector (on_agent r f m) = datacollector m"
  "intervention (on_agent r f m) = intervention m"
  "percInfect (on_agent r f m) = percInfect m" "percRecover (on_agent r f m) = percRecover m"
  "initInfected (on_agent r f m) = initInfected m"
  "length (agents (on_agent r f m)) = length (agents m)"
  by (simp_all add: on_agent_def)

lemma on_agent_nth:
  "k < length (agents m) \<Longrightarrow>
     agents (on_agent r f m) ! k = (if k = r then f (agents m ! k) else agents m ! k)"
  by (simp add: on_agent_def nth_list_update)

lemma on_agent_keys:
  "unique_id (f (agents m ! r)) = unique_id (agents m ! r) \<Longrightarrow>
   pos (f (agents m ! r)) = pos (agents m ! r) \<Longrightarrow>
     map unique_id (agents (on_agent r f m)) = map unique_id (agents m) \<and>
     map pos (agents (on_agent r f m)) = map pos (agents m)"
proof -
  assume a: "unique_id (f (agents m ! r)) = unique_id (agents m ! r)"
    "pos (f (agents m ! r)) = pos (agents m ! r)"
  have "\<And>i. i < length (agents m) \<Longrightarrow>
      unique_id ((agents m)[r := f (agents m ! r)] ! i) = unique_id (agents m ! i)"
    using a(1) by (case_tac "i = r") simp_all
  moreover have "\<And>i. i < length (agents m) \<Longrightarrow>
      pos ((agents m)[r := f (agents m ! r)] ! i) = pos (agents m ! i)"
    using a(2) by (case_tac "i = r") simp_all
  ultimately show ?thesis
    by (auto intro!: nth_equalityI simp: on_agent_def)
qed

lemma infect_keys [simp]: "unique_id (infect s a) = unique_id a" "pos (infect s a) = pos a"
  by (simp_all add: infect_def)

lemma recover_keys [simp]: "unique_id (recover a) = unique_id a" "pos (recover a) = pos a"
  by (simp_all add: recover_def)

lemma wf_on_agent_infect: "wf_model m \<Longrightarrow> wf_model (on_agent r (infect s) m)"
  using on_agent_keys [of "infect s" m r] by (simp add: wf_model_def)

lemma wf_on_agent_recover: "wf_model m \<Longrightarrow> wf_model (on_agent r recover m)"
  using on_agent_keys [of recover m r] by (simp add: wf_model_def)

lemma reset_events_fields [simp]:
  "num_agents (reset_events m) = num_agents m" "G (reset_events m) = G m"
  "steps (reset_events m) = steps m" "time (reset_events m) = time m"
  "datacollector (reset_events m) = datacollector m"
  "intervention (reset_events m) = intervention m"
  "percInfect (reset_events m) = percInfect m" "percRecover (reset_events m) = percRecover m"
  "length (agents (reset_events m)) = length (agents m)"
  by (simp_all add: reset_events_def)

lemma reset_events_nth:
  "k < length (agents m) \<Longrightarrow>
     agents (reset_events m) ! k = (agents m ! k)\<lparr>event := NOTHING, cause := -100\<rparr>"
  by (simp add: reset_events_def)

lemma wf_reset_events: "wf_model m \<Longrightarrow> wf_model (reset_events m)"
  by (simp add: wf_model_def) (simp add: reset_events_def comp_def)

lemma transition_fields [simp]:
  "num_agents (transition r nb ri rr m) = num_agents m" "G (transition r nb ri rr m) = G m"
  "steps (transition r nb ri rr m) = steps m" "time (transition r nb ri rr m) = time m"
  "datacollector (transition r nb ri rr m) = datacollector m"
  "intervention (transition r nb ri rr m) = intervention m"
  "percInfect (transition r nb ri rr m) = percInfect m"
  "percRecover (transition r nb ri rr m) = percRecover m"
  "length (agents (transition r nb ri rr m)) = length (agents m)"
  by (simp_all add: transition_def Let_def)

lemma wf_transition: "wf_model m \<Longrightarrow> wf_model (transition r nb ri rr m)"
  by (simp add: transition_def Let_def wf_on_agent_infect wf_on_agent_recover)

text \<open>The agents after the two conditionals, when the neighbour is another agent.\<close>

lemma transition_nth:
  assumes "r < length (agents m)" "nb < length (agents m)" "nb \<noteq> r" "k < length (agents m)"
  shows "agents (transition r nb ri rr m) ! k =
     (if k = nb then
        (if state (agents m ! r) = INFECTED \<and> ri < percInfect m \<and> state (agents m ! nb) \<noteq> INFECTED
         then infect (unique_id (agents m ! r)) (agents m ! nb) else agents m ! nb)
      else if k = r then
        (if state (agents m ! r) = INFECTED \<and> rr < percRecover m
         then recover (agents m ! r) else agents m ! r)
      else agents m ! k)"
  using assms by (simp add: transition_def Let_def on_agent_nth)

lemma RandomSingleActivation_step_wf:
  assumes "wf_model m"
  shows "RandomSingleActivation_step (reset_events m) g =
     (if length (agents m) < 2 then Inl IndexError else Inr (scheduled m g, advance 4 g))"
proof (cases "length (agents m) = 0")
  case True
  then show ?thesis by (simp add: RandomSingleActivation_step_def random_choice_eq)
next
  case False
  let ?n = "length (agents m)"
  have r: "actor g ?n < length (agents (reset_events m))"
    using False chosen_in [of "[0..<?n]" g] by (simp add: actor_def)
  have a: "advance 3 (advance (Suc 0) g) = advance 4 g"
    "advance 2 (advance (Suc 0) g) = advance 3 g"
    by (simp_all add: advance_def)
  have b: "?n \<noteq> Suc 0 \<Longrightarrow> \<not> ?n < 2"
    using False by arith
  show ?thesis
    using False b
    by (simp add: RandomSingleActivation_step_def random_choice_eq actor_def [symmetric]
          DiseaseAgent_step_wf [OF wf_reset_events [OF assms] r] a scheduled_def Let_def
          target_def)
qed

lemma scheduled_fields [simp]:
  "num_agents (scheduled m g) = num_agents m" "G (scheduled m g) = G m"
  "steps (scheduled m g) = steps m + 1" "time (scheduled m g) = time m + 1"
  "datacollector (scheduled m g) = datacollector m"
  "intervention (scheduled m g) = intervention m"
  "percInfect (scheduled m g) = percInfect m" "percRecover (scheduled m g) = percRecover m"
  "length (agents (scheduled m g)) = length (agents m)"
  by (simp_all add: scheduled_def Let_def)

lemma wf_scheduled: "wf_model m \<Longrightarrow> wf_model (scheduled m g)"
proof -
  assume "wf_model m"
  then have "wf_model (transition (actor g (length (agents m))) (target g (length (agents m)))
      (floats g (cursor g + 1)) (floats g (cursor g + 2)) (reset_events m))"
    by (intro wf_transition wf_reset_events)
  then show ?thesis
    by (simp add: scheduled_def Let_def wf_model_def)
qed

lemma DiseaseModel_step_wf:
  assumes "wf_model m"
  shows "DiseaseModel_step m g =
     (if length (agents m) < 2 then Inl IndexError
      else (case intervention m of
              None \<Rightarrow> Inr (collect (scheduled m g), advance 4 g)
            | Some iv \<Rightarrow>
                (case Intervention_apply iv (scheduled m g) of
                   Inl e \<Rightarrow> Inl e
                 | Inr m2 \<Rightarrow> Inr (collect m2, advance 4 g))))"
  by (simp add: DiseaseModel_step_def RandomSingleActivation_step_wf [OF assms]
        split: option.split sum.split)

section \<open>The agents after construction\<close>

text \<open>
  C5 (as amended). Immediately after construction the model has \<open>N\<close> agents; an agent
  whose id is in \<open>initInfected\<close> has state INFECTED, event INFECT and cause \<open>-1\<close>, the
  default sender of \<^verbatim>\<open>infect\<close>; every other agent has state HEALTHY, event NOTHING and
  the no-cause sentinel \<open>-100\<close>.
\<close>

theorem seeds_after_construction:
  "length (agents (DiseaseModel_init N ii pInf pRec iv)) = N \<and>
   (\<forall>i<N. agents (DiseaseModel_init N ii pInf pRec iv) ! i =
      (if int i \<in> set ii
       then \<lparr>unique_id = int i, pos = Some (int i), state = INFECTED, event = INFECT,
             cause = -1\<rparr>
       else \<lparr>unique_id = int i, pos = Some (int i), state = HEALTHY, event = NOTHING,
             cause = -100\<rparr>))"
  by (simp add: agents_init)

theorem seeds_after_construction_witness:
  "agents (DiseaseModel_init 3 [0, 5] (1 / 2) (1 / 20) None) ! 0 =
     \<lparr>unique_id = 0, pos = Some 0, state = INFECTED, event = INFECT, cause = -1\<rparr> \<and>
   agents (DiseaseModel_init 3 [0, 5] (1 / 2) (1 / 20) None) ! 1 =
     \<lparr>unique_id = 1, pos = Some 1, state = HEALTHY, event = NOTHING, cause = -100\<rparr>"
  using seeds_after_construction [of 3 "[0, 5]" "1 / 2" "1 / 20" None, THEN conjunct2, rule_format, of 0]
    seeds_after_construction [of 3 "[0, 5]" "1 / 2" "1 / 20" None, THEN conjunct2, rule_format, of 1]
  by simp

text \<open>
  C5 as stated fails: the seed agent 0 of a two-agent model does not carry the no-cause
  sentinel after construction.
\<close>

theorem seed_cause_counterexample:
  "0 \<in> set [0 :: int] \<and>
   state (agents (DiseaseModel_init 2 [0] (1 / 2) (1 / 20) None) ! 0) = INFECTED \<and>
   event (agents (DiseaseModel_init 2 [0] (1 / 2) (1 / 20) None) ! 0) = INFECT \<and>
   cause (agents (DiseaseModel_init 2 [0] (1 / 2) (1 / 20) None) ! 0) \<noteq> -100"
  by (simp add: agents_init)

section \<open>Determinism, missing neighbours, one activation, unchecked construction\<close>

lemma get_cell_list_contents_reset:
  "get_cell_list_contents (reset_events m) ns = get_cell_list_contents m ns"
proof -
  have "\<And>n. filter (\<lambda>r. pos (agents (reset_events m) ! r) = Some n) [0..<length (agents m)]
      = filter (\<lambda>r. pos (agents m ! r) = Some n) [0..<length (agents m)]"
    by (rule filter_cong) (simp_all add: reset_events_nth)
  then show ?thesis
    by (simp add: get_cell_list_contents_def)
qed

text \<open>
  C8. Two invocations of \<^verbatim>\<open>run\<close> with identical parameters return identical traces (and
  leave the generator in the same state), whatever state the generator was in before each
  invocation: \<^verbatim>\<open>run\<close> seeds it first.
\<close>

theorem run_deterministic:
  "run seeded g numAgents ii pInf pRec numTicks iv =
   run seeded g' numAgents ii pInf pRec numTicks iv"
  by (simp add: run_def random_seed_def)

text \<open>
  C9 (as amended). When the scheduler activates an agent that has no neighbour agents,
  the neighbour selection raises (IndexError, from \<^verbatim>\<open>random.choice\<close> on the empty list);
  the step fails and so does every run that reaches it. When the agent's only neighbour
  agent is the agent itself, nothing is raised: the chosen neighbour is never compared
  with the acting agent, and the activation completes, infecting no one and recovering
  the agent if the recovery check passes.
\<close>

theorem neighbour_selection:
  assumes "random_choice [0..<length (agents m)] g = Inr (r, g1)"
    and "get_neighbors (G m) (pos (agents m ! r)) = Inr ns"
  shows "(get_cell_list_contents m ns = [] \<longrightarrow>
            DiseaseAgent_step r (reset_events m) g1 = Inl IndexError \<and>
            DiseaseModel_step m g = Inl IndexError \<and>
            step_loop (Suc k) m g = Inl IndexError) \<and>
         (get_cell_list_contents m ns = [r] \<longrightarrow>
            DiseaseAgent_step r (reset_events m) g1 =
              Inr (if state (agents m ! r) = INFECTED \<and> floats g1 (cursor g1 + 1) < percRecover m
                   then on_agent r recover (reset_events m) else reset_events m,
                   advance 3 g1))"
proof -
  have n: "agents m \<noteq> []" and r: "r = chosen g [0..<length (agents m)]"
    using assms(1) by (auto simp: random_choice_eq split: if_splits)
  have rl: "r < length (agents m)"
    using n chosen_in [of "[0..<length (agents m)]" g] by (simp add: r)
  have p: "pos (agents (reset_events m) ! r) = pos (agents m ! r)"
    and st: "state (agents (reset_events m) ! r) = state (agents m ! r)"
    using rl by (simp_all add: reset_events_nth)
  have nb: "get_neighbors (G m) (pos (agents (reset_events m) ! r)) = Inr ns"
    by (simp add: p assms(2))
  have zero: "DiseaseAgent_step r (reset_events m) g1 = Inl IndexError \<and>
            DiseaseModel_step m g = Inl IndexError \<and>
            step_loop (Suc k) m g = Inl IndexError"
    if e: "get_cell_list_contents m ns = []"
  proof -
    have a: "DiseaseAgent_step r (reset_events m) g1 = Inl IndexError"
      by (simp add: DiseaseAgent_step_def random_random_eq nb
            get_cell_list_contents_reset e random_choice_eq)
    have b: "DiseaseModel_step m g = Inl IndexError"
      using assms(1) a by (simp add: DiseaseModel_step_def RandomSingleActivation_step_def)
    from a b show ?thesis by simp
  qed
  have self: "DiseaseAgent_step r (reset_events m) g1 =
              Inr (if state (agents m ! r) = INFECTED \<and> floats g1 (cursor g1 + 1) < percRecover m
                   then on_agent r recover (reset_events m) else reset_events m,
                   advance 3 g1)"
    if e: "get_cell_list_contents m ns = [r]"
  proof -
    have c: "random_choice [r] (advance (Suc 0) (advance (Suc 0) g1)) = Inr (r, advance 3 g1)"
      by (simp add: random_choice_eq chosen_def advance_def)
    show ?thesis
      by (simp add: DiseaseAgent_step_def random_random_eq nb get_cell_list_contents_reset
            e c st Let_def)
  qed
  from zero self show ?thesis by blast
qed

theorem neighbour_selection_witness:
  "DiseaseModel_step (DiseaseModel_init 1 [0] (1 / 2) (1 / 20) None) quiet = Inl IndexError \<and>
   DiseaseAgent_step 0 (reset_events self_loop_model) (advance 1 quiet) =
     Inr (reset_events self_loop_model, advance 3 (advance 1 quiet))"
proof -
  let ?m = "DiseaseModel_init 1 [0] (1 / 2) (1 / 20) None"
  have l: "length (agents ?m) = 1" by (simp add: agents_init)
  have 1: "random_choice [0..<length (agents ?m)] quiet = Inr (0, advance 1 quiet)"
    unfolding l by (simp add: random_choice_eq chosen_def)
  have 2: "get_neighbors (G ?m) (pos (agents ?m ! 0)) = Inr []"
    by (simp add: agents_init init_fields get_neighbors_def complete_graph_def)
  have 3: "get_cell_list_contents ?m [] = []"
    by (simp add: get_cell_list_contents_def)
  have sl: "length (agents self_loop_model) = 1"
    by (simp add: self_loop_model_def agents_init)
  have 4: "random_choice [0..<length (agents self_loop_model)] quiet = Inr (0, advance 1 quiet)"
    unfolding sl by (simp add: random_choice_eq chosen_def)
  have 5: "get_neighbors (G self_loop_model) (pos (agents self_loop_model ! 0)) = Inr [0]"
    by (simp add: self_loop_model_def agents_init get_neighbors_def)
  have 6: "get_cell_list_contents self_loop_model [0] = [0]"
    by (simp add: get_cell_list_contents_def self_loop_model_def agents_init)
  have 7: "\<not> floats (advance 1 quiet) (cursor (advance 1 quiet) + 1) < percRecover self_loop_model"
    by (simp add: quiet_def self_loop_model_def init_fields)
  show ?thesis
    using neighbour_selection [OF 1 2, of 0] neighbour_selection [OF 4 5, of 0] 3 6 7
    by simp
qed

text \<open>
  C9 as stated fails: on a graph whose single node is its own neighbour, the activated
  agent's only selectable neighbour is itself, and the step completes and records the
  tick.
\<close>

theorem self_neighbour_counterexample:
  "map_sum id (\<lambda>p. datacollector (fst p)) (DiseaseModel_step self_loop_model quiet) =
     Inr [((0, 0), \<lparr>col_State = INFECTED, col_Event = NOTHING, col_Cause = -100\<rparr>)]"
  by code_simp

text \<open>
  C6. In one activation of an agent \<open>r\<close> of a model with at least two agents, the
  neighbour is drawn from all other agents, whatever their state. When \<open>r\<close> is INFECTED,
  the first draw is below the infection probability, the drawn neighbour is not INFECTED
  and the second draw is below the recovery probability, the activation completes with the
  neighbour INFECTED by \<open>r\<close> (event INFECT, cause the id of \<open>r\<close>) and with \<open>r\<close>
  HEALTHY (event RECOVER): the recovery check still saw \<open>r\<close> INFECTED, and the recovery
  does not undo the infection.
\<close>

theorem infect_and_recover_in_one_activation:
  assumes "wf_model m" and "r < length (agents m)" and "2 \<le> length (agents m)"
    and "nb = chosen (advance 2 g) (others (length (agents m)) r)"
    and "state (agents m ! r) = INFECTED"
    and "floats g (cursor g) < percInfect m"
    and "state (agents m ! nb) \<noteq> INFECTED"
    and "floats g (cursor g + 1) < percRecover m"
  shows "map_sum id (get_cell_list_contents m) (get_neighbors (G m) (pos (agents m ! r)))
           = Inr (filter (\<lambda>j. j \<noteq> r) [0..<length (agents m)]) \<and>
         (\<exists>m'. DiseaseAgent_step r m g = Inr (m', advance 3 g) \<and>
            state (agents m' ! nb) = INFECTED \<and> event (agents m' ! nb) = INFECT \<and>
            cause (agents m' ! nb) = unique_id (agents m ! r) \<and>
            state (agents m' ! r) = HEALTHY \<and> event (agents m' ! r) = RECOVER \<and>
            cause (agents m' ! r) = -100)"
proof -
  let ?n = "length (agents m)"
  have n1: "?n \<noteq> 1" using assms(3) by simp
  have nb: "nb < ?n" "nb \<noteq> r"
    using chosen_others [OF assms(2) n1, of "advance 2 g"] by (simp_all add: assms(4))
  let ?m' = "transition r nb (floats g (cursor g)) (floats g (Suc (cursor g))) m"
  have s: "DiseaseAgent_step r m g = Inr (?m', advance 3 g)"
    using n1 by (simp add: DiseaseAgent_step_wf [OF assms(1,2)] assms(4))
  have a: "agents ?m' ! nb = infect (unique_id (agents m ! r)) (agents m ! nb)"
    using assms(5,6,7) by (simp add: transition_nth [OF assms(2) nb(1) nb(2) nb(1)])
  have b: "agents ?m' ! r = recover (agents m ! r)"
    using assms(5,8) nb(2) by (simp add: transition_nth [OF assms(2) nb(1) nb(2) assms(2)])
  have c: "map_sum id (get_cell_list_contents m) (get_neighbors (G m) (pos (agents m ! r)))
           = Inr (filter (\<lambda>j. j \<noteq> r) [0..<?n])"
    using wf_neighbour_agents [OF assms(1), of r]
    by (simp add: wf_get_neighbors [OF assms(1,2)] others_def)
  show ?thesis
    using s a b c by (simp add: infect_def recover_def)
qed

theorem infect_and_recover_in_one_activation_witness:
  "\<exists>m'. DiseaseAgent_step 0 (DiseaseModel_init 2 [0] (1 / 2) (1 / 2) None) eager
            = Inr (m', advance 3 eager) \<and>
      state (agents m' ! 1) = INFECTED \<and> event (agents m' ! 1) = INFECT \<and>
      cause (agents m' ! 1) = 0 \<and>
      state (agents m' ! 0) = HEALTHY \<and> event (agents m' ! 0) = RECOVER \<and>
      cause (agents m' ! 0) = -100"
proof -
  let ?m = "DiseaseModel_init 2 [0] (1 / 2) (1 / 2) None"
  have l: "length (agents ?m) = 2" by (simp add: agents_init)
  have o: "others 2 0 = [1]" by code_simp
  have 1: "wf_model ?m" by (rule wf_init)
  have 2: "0 < length (agents ?m)" and 3: "2 \<le> length (agents ?m)" by (simp_all add: l)
  have 4: "1 = chosen (advance 2 eager) (others (length (agents ?m)) 0)"
    unfolding l o by (simp add: chosen_def)
  have 5: "state (agents ?m ! 0) = INFECTED" by (simp add: agents_init)
  have 6: "floats eager (cursor eager) < percInfect ?m" by (simp add: eager_def init_fields)
  have 7: "state (agents ?m ! 1) \<noteq> INFECTED" by (simp add: agents_init)
  have 8: "floats eager (cursor eager + 1) < percRecover ?m" by (simp add: eager_def init_fields)
  have u: "unique_id (agents ?m ! 0) = 0" by (simp add: agents_init)
  show ?thesis
    using infect_and_recover_in_one_activation [OF 1 2 3 4 5 6 7 8, THEN conjunct2]
    by (simp add: u)
qed

text \<open>
  C3 (as amended). The constructor validates nothing and never fails: whatever the
  arguments, it returns a model with \<open>N\<close> agents and the probabilities as given, in which
  exactly the agents with an id in \<open>initInfected\<close> are infected (ids outside
  \<open>[0, N)\<close> infect no one). Without intervention such a model is stepped successfully
  when it has at least two agents; with fewer, its first step fails with IndexError.
\<close>

theorem construction_unchecked:
  "length (agents (DiseaseModel_init N ii pInf pRec None)) = N \<and>
   percInfect (DiseaseModel_init N ii pInf pRec None) = pInf \<and>
   percRecover (DiseaseModel_init N ii pInf pRec None) = pRec \<and>
   (\<forall>i<N. state (agents (DiseaseModel_init N ii pInf pRec None) ! i) = INFECTED
            \<longleftrightarrow> int i \<in> set ii) \<and>
   DiseaseModel_step (DiseaseModel_init N ii pInf pRec None) g =
     (if N < 2 then Inl IndexError
      else Inr (collect (scheduled (DiseaseModel_init N ii pInf pRec None) g), advance 4 g))"
proof -
  have l: "length (agents (DiseaseModel_init N ii pInf pRec None)) = N"
    by (simp add: agents_init)
  show ?thesis
    by (simp add: DiseaseModel_step_wf [OF wf_init] l init_fields) (simp add: agents_init)
qed

theorem construction_unchecked_witness:
  "length (agents (DiseaseModel_init 2 [7] 2 (-1) None)) = 2 \<and>
   percInfect (DiseaseModel_init 2 [7] 2 (-1) None) = 2 \<and>
   percRecover (DiseaseModel_init 2 [7] 2 (-1) None) = -1 \<and>
   state (agents (DiseaseModel_init 2 [7] 2 (-1) None) ! 1) \<noteq> INFECTED \<and>
   DiseaseModel_step (DiseaseModel_init 2 [7] 2 (-1) None) quiet =
     Inr (collect (scheduled (DiseaseModel_init 2 [7] 2 (-1) None) quiet), advance 4 quiet)"
proof -
  note t = construction_unchecked [of 2 "[7]" 2 "-1" quiet]
  have "state (agents (DiseaseModel_init 2 [7] 2 (-1) None) ! 1) = INFECTED
          \<longleftrightarrow> int 1 \<in> set [7]"
    using t by (elim conjE) (simp del: of_nat_1 of_nat_Suc)
  then show ?thesis using t by simp
qed

text \<open>
  C3 as stated fails: a model built with an id outside \<open>[0, N)\<close>, an infection
  probability above 1 and a negative recovery probability is stepped, and the run returns
  the trace of its tick.
\<close>

theorem construction_counterexample:
  "map_sum id fst (run quiet quiet 2 [7] 2 (-1) 1 None) =
     Inr [((0, 0), \<lparr>col_State = HEALTHY, col_Event = NOTHING, col_Cause = -100\<rparr>),
          ((0, 1), \<lparr>col_State = HEALTHY, col_Event = NOTHING, col_Cause = -100\<rparr>)]"
  by code_simp

section \<open>The intervention\<close>

lemma wf_get_agent_by_id:
  assumes "wf_model m" "j < length (agents m)"
  shows "get_agent_by_id (agents m) (int j) = Inr j"
proof -
  have "filter (\<lambda>r. unique_id (agents m ! r) = int j) [0..<length (agents m)]
        = filter (\<lambda>r. r = j) [0..<length (agents m)]"
    by (rule filter_cong) (auto simp: wf_unique_id [OF assms(1)])
  also have "\<dots> = [j]" using assms(2) by (rule filter_eq_upt)
  finally show ?thesis by (simp add: get_agent_by_id_def)
qed

lemma trace_Event_missing:
  "k \<notin> fst ` set tr \<Longrightarrow> trace_Event tr k = Inl KeyError"
proof -
  assume "k \<notin> fst ` set tr"
  then have "filter (\<lambda>e. fst e = k) tr = []"
    by (auto simp: filter_empty_conv)
  then show ?thesis by (simp add: trace_Event_def)
qed

text \<open>The loop on a model in which at most agent \<open>j\<close> has event INFECT.\<close>

lemma apply_loop_single:
  assumes "wf_model m" "distinct js" "set js \<subseteq> {..<length (agents m)}"
    and "\<forall>k\<in>set js. k \<noteq> j \<longrightarrow> event (agents m ! k) \<noteq> INFECT"
  shows "apply_loop tr tick (map int js) m =
     (if j \<in> set js \<and> event (agents m ! j) = INFECT
      then (case trace_Event tr (tick, int j) of
              Inl e \<Rightarrow> Inl e
            | Inr ev \<Rightarrow> if ev \<noteq> INFECT then Inr (on_agent j recover m) else Inr m)
      else Inr m)"
  using assms
proof (induction js arbitrary: m)
  case Nil
  then show ?case by simp
next
  case (Cons a js)
  have a: "a < length (agents m)" using Cons.prems(3) by simp
  have g: "get_agent_by_id (agents m) (int a) = Inr a"
    using Cons.prems(1) a by (rule wf_get_agent_by_id)
  have sub: "set js \<subseteq> {..<length (agents m)}" and d: "distinct js" and na: "a \<notin> set js"
    using Cons.prems(2,3) by simp_all
  have rest: "\<forall>k\<in>set js. k \<noteq> j \<longrightarrow> event (agents m ! k) \<noteq> INFECT"
    using Cons.prems(4) by simp
  note ih = Cons.IH [OF Cons.prems(1) d sub rest]
  show ?case
  proof (cases "event (agents m ! a) = INFECT")
    case False
    then have "apply_loop tr tick (map int (a # js)) m = apply_loop tr tick (map int js) m"
      by (simp add: g)
    with ih False show ?thesis by auto
  next
    case True
    then have aj: "a = j" using Cons.prems(4) by auto
    let ?m1 = "on_agent j recover m"
    have wf1: "wf_model ?m1" using Cons.prems(1) by (rule wf_on_agent_recover)
    have sub1: "set js \<subseteq> {..<length (agents ?m1)}" using sub by simp
    have rest1: "\<forall>k\<in>set js. k \<noteq> j \<longrightarrow> event (agents ?m1 ! k) \<noteq> INFECT"
      using rest sub by (auto simp: on_agent_nth)
    have ih1: "apply_loop tr tick (map int js) ?m1 = Inr ?m1"
      using Cons.IH [OF wf1 d sub1 rest1] na aj by simp
    have ih0: "apply_loop tr tick (map int js) m = Inr m"
      using ih na aj by simp
    show ?thesis
      using True aj g ih0 ih1 by (simp split: sum.split)
  qed
qed

lemma wf_ids: "wf_model m \<Longrightarrow> map unique_id (agents m) = map int [0..<length (agents m)]"
  by (simp add: wf_model_def)

lemma Intervention_apply_single:
  assumes "wf_model m"
    and "\<forall>k<length (agents m). k \<noteq> j \<longrightarrow> event (agents m ! k) \<noteq> INFECT"
  shows "Intervention_apply iv m =
     (if j < length (agents m) \<and> event (agents m ! j) = INFECT
      then (case trace_Event (itrace iv) (steps m - 1, int j) of
              Inl e \<Rightarrow> Inl e
            | Inr ev \<Rightarrow> if ev \<noteq> INFECT then Inr (on_agent j recover m) else Inr m)
      else Inr m)"
proof -
  have s: "set [0..<length (agents m)] \<subseteq> {..<length (agents m)}" by auto
  have e: "\<forall>k\<in>set [0..<length (agents m)]. k \<noteq> j \<longrightarrow> event (agents m ! k) \<noteq> INFECT"
    using assms(2) by simp
  show ?thesis
    unfolding Intervention_apply_def Let_def wf_ids [OF assms(1)]
      apply_loop_single [OF assms(1) distinct_upt s e]
    by simp
qed

text \<open>The agents after the tick's reset and activation.\<close>

lemma scheduled_nth:
  assumes "wf_model m" "2 \<le> length (agents m)" "k < length (agents m)"
  shows "agents (scheduled m g) ! k =
     (let n = length (agents m); r = actor g n; nb = target g n;
          quiet = (agents m ! k)\<lparr>event := NOTHING, cause := -100\<rparr>
      in if k = nb then
           (if state (agents m ! r) = INFECTED \<and> floats g (cursor g + 1) < percInfect m
                 \<and> state (agents m ! nb) \<noteq> INFECTED
            then infect (int r) quiet else quiet)
         else if k = r then
           (if state (agents m ! r) = INFECTED \<and> floats g (cursor g + 2) < percRecover m
            then recover quiet else quiet)
         else quiet)"
proof -
  let ?n = "length (agents m)"
  have n0: "[0..<?n] \<noteq> []" and n1: "?n \<noteq> 1" using assms(2) by auto
  have r: "actor g ?n < ?n"
    using chosen_in [OF n0, of g] by (simp add: actor_def)
  have nb: "target g ?n < ?n" "target g ?n \<noteq> actor g ?n"
    using chosen_others [OF r n1, of "advance 3 g"] by (simp_all add: target_def)
  have r': "actor g ?n < length (agents (reset_events m))"
    and nb': "target g ?n < length (agents (reset_events m))"
    and k': "k < length (agents (reset_events m))"
    using r nb(1) assms(3) by simp_all
  show ?thesis
    using r nb assms(3)
    by (simp add: scheduled_def Let_def transition_nth [OF r' nb' nb(2) k'] reset_events_nth
          wf_unique_id [OF assms(1)])
qed

lemma scheduled_infect_only_target:
  assumes "wf_model m" "2 \<le> length (agents m)" "k < length (agents m)"
    and "event (agents (scheduled m g) ! k) = INFECT"
  shows "k = target g (length (agents m))"
  using assms(4) unfolding scheduled_nth [OF assms(1,2,3)]
  by (simp add: Let_def infect_def recover_def split: if_splits)

lemma RandomSingleActivation_step_Inr:
  assumes "wf_model m" "RandomSingleActivation_step (reset_events m) g = Inr (m1, g1)"
  shows "2 \<le> length (agents m)" "m1 = scheduled m g" "g1 = advance 4 g"
  using assms(2) unfolding RandomSingleActivation_step_wf [OF assms(1)]
  by (simp_all split: if_splits)

lemma collect_fields [simp]:
  "agents (collect m) = agents m" "steps (collect m) = steps m" "G (collect m) = G m"
  "num_agents (collect m) = num_agents m" "intervention (collect m) = intervention m"
  "percInfect (collect m) = percInfect m" "percRecover (collect m) = percRecover m"
  by (simp_all add: collect_def)

lemma wf_collect: "wf_model m \<Longrightarrow> wf_model (collect m)"
  by (simp add: wf_model_def)

text \<open>The intervention after the tick's activation: only the target can carry INFECT.\<close>

lemma Intervention_apply_scheduled:
  assumes "wf_model m" "2 \<le> length (agents m)"
  shows "Intervention_apply iv (scheduled m g) =
     (let t = target g (length (agents m)); m1 = scheduled m g
      in if event (agents m1 ! t) = INFECT
         then (case trace_Event (itrace iv) (steps m, int t) of
                 Inl e \<Rightarrow> Inl e
               | Inr ev \<Rightarrow> if ev \<noteq> INFECT then Inr (on_agent t recover m1) else Inr m1)
         else Inr m1)"
proof -
  let ?n = "length (agents m)"
  have n0: "[0..<?n] \<noteq> []" and n1: "?n \<noteq> 1" using assms(2) by auto
  have r: "actor g ?n < ?n"
    using chosen_in [OF n0, of g] by (simp add: actor_def)
  have t: "target g ?n < ?n"
    using chosen_others [OF r n1, of "advance 3 g"] by (simp add: target_def)
  have o: "\<forall>k<length (agents (scheduled m g)). k \<noteq> target g ?n
         \<longrightarrow> event (agents (scheduled m g) ! k) \<noteq> INFECT"
    using scheduled_infect_only_target [OF assms] by auto
  show ?thesis
    using t by (simp add: Intervention_apply_single [OF wf_scheduled [OF assms(1)] o] Let_def)
qed

text \<open>
  C4 (as amended). In a run with an Intervention, when after the scheduler's activation an
  agent's event is INFECT and the baseline trace has no entry for the coordinate
  (current tick, agent id), the lookup raises KeyError and \<^verbatim>\<open>DiseaseModel.step\<close> fails
  with that error, raised to its caller, instead of completing with the infection
  suppressed.
\<close>

theorem missing_baseline_entry_raises:
  assumes "wf_model m" and "intervention m = Some iv"
    and "RandomSingleActivation_step (reset_events m) g = Inr (m1, g1)"
    and "j < length (agents m1)" and "event (agents m1 ! j) = INFECT"
    and "(steps m1 - 1, unique_id (agents m1 ! j)) \<notin> fst ` set (itrace iv)"
  shows "DiseaseModel_step m g = Inl KeyError"
proof -
  note s = RandomSingleActivation_step_Inr [OF assms(1,3)]
  have j: "j < length (agents m)" using assms(4) by (simp add: s(2))
  have t: "j = target g (length (agents m))"
    using assms(5) scheduled_infect_only_target [OF assms(1) s(1) j] by (simp add: s(2))
  have u: "unique_id (agents (scheduled m g) ! j) = int j"
    using wf_unique_id [OF wf_scheduled [OF assms(1)], of j g] j by simp
  have "trace_Event (itrace iv) (steps m, int j) = Inl KeyError"
    using assms(6) by (intro trace_Event_missing) (simp add: s(2) u)
  then have "Intervention_apply iv m1 = Inl KeyError"
    using assms(5) t by (simp add: s(2) Intervention_apply_scheduled [OF assms(1) s(1)] Let_def)
  then show ?thesis
    using assms(2,3) by (simp add: DiseaseModel_step_def s(2))
qed

text \<open>
  C1. In a run with an Intervention, let an agent's event after the scheduler's activation
  be INFECT and the baseline trace have the event \<open>ev\<close> at the coordinate
  (current tick, agent id). Then the step succeeds and appends one row per agent; if
  \<open>ev\<close> is not INFECT the agent has been recovered before the capture and its row has
  state HEALTHY, event RECOVER and the no-cause sentinel; if \<open>ev\<close> is INFECT the agent is
  untouched and its row is the infection as the activation left it.
\<close>

theorem intervention_suppresses_unless_baseline_infect:
  assumes "wf_model m" and "intervention m = Some iv"
    and "RandomSingleActivation_step (reset_events m) g = Inr (m1, g1)"
    and "j < length (agents m1)" and "event (agents m1 ! j) = INFECT"
    and "trace_Event (itrace iv) (steps m1 - 1, unique_id (agents m1 ! j)) = Inr ev"
  shows "\<exists>m2 rows. DiseaseModel_step m g = Inr (m2, g1) \<and>
           agents m2 ! j = (if ev \<noteq> INFECT then recover (agents m1 ! j) else agents m1 ! j) \<and>
           datacollector m2 = datacollector m @ rows \<and> length rows = length (agents m) \<and>
           rows ! j =
             ((steps m, unique_id (agents m1 ! j)),
              if ev \<noteq> INFECT
              then \<lparr>col_State = HEALTHY, col_Event = RECOVER, col_Cause = -100\<rparr>
              else \<lparr>col_State = state (agents m1 ! j), col_Event = INFECT,
                    col_Cause = cause (agents m1 ! j)\<rparr>)"
proof -
  note s = RandomSingleActivation_step_Inr [OF assms(1,3)]
  have j: "j < length (agents m)" using assms(4) by (simp add: s(2))
  have t: "j = target g (length (agents m))"
    using assms(5) scheduled_infect_only_target [OF assms(1) s(1) j] by (simp add: s(2))
  have u: "unique_id (agents (scheduled m g) ! j) = int j"
    using wf_unique_id [OF wf_scheduled [OF assms(1)], of j g] j by simp
  have e: "trace_Event (itrace iv) (steps m, int j) = Inr ev"
    using assms(6) by (simp add: s(2) u)
  let ?m2 = "if ev \<noteq> INFECT then on_agent j recover m1 else m1"
  have a: "Intervention_apply iv m1 = Inr ?m2"
    using assms(5) t e by (simp add: s(2) Intervention_apply_scheduled [OF assms(1) s(1)] Let_def)
  have st: "DiseaseModel_step m g = Inr (collect ?m2, g1)"
    using assms(2,3) a by (simp add: DiseaseModel_step_def s(2))
  let ?rows = "map (\<lambda>a. ((steps ?m2 - 1, unique_id a),
                  \<lparr>col_State = state a, col_Event = event a, col_Cause = cause a\<rparr>)) (agents ?m2)"
  have d: "datacollector (collect ?m2) = datacollector m @ ?rows"
    by (simp add: collect_def s(2))
  have l: "length ?rows = length (agents m)" by (simp add: s(2))
  have ag: "agents (collect ?m2) ! j
      = (if ev \<noteq> INFECT then recover (agents m1 ! j) else agents m1 ! j)"
    using assms(4) by (simp add: on_agent_nth)
  have rj: "?rows ! j =
             ((steps m, unique_id (agents m1 ! j)),
              if ev \<noteq> INFECT
              then \<lparr>col_State = HEALTHY, col_Event = RECOVER, col_Cause = -100\<rparr>
              else \<lparr>col_State = state (agents m1 ! j), col_Event = INFECT,
                    col_Cause = cause (agents m1 ! j)\<rparr>)"
    using assms(4,5) by (simp add: on_agent_nth recover_def s(2))
  show ?thesis
    using st ag d l rj by blast
qed

lemma two_agents_scheduled:
  "RandomSingleActivation_step (reset_events (DiseaseModel_init 2 ii pInf pRec iv)) g =
     Inr (scheduled (DiseaseModel_init 2 ii pInf pRec iv) g, advance 4 g)"
  by (simp add: RandomSingleActivation_step_wf [OF wf_init] agents_init)

theorem missing_baseline_entry_raises_witness:
  "DiseaseModel_step (DiseaseModel_init 2 [0] 1 0 (Some \<lparr>itrace = []\<rparr>)) eager = Inl KeyError"
proof -
  let ?iv = "\<lparr>itrace = []\<rparr>"
  let ?m = "DiseaseModel_init 2 [0] 1 0 (Some ?iv)"
  have 2: "intervention ?m = Some ?iv" by (simp add: init_fields)
  have 4: "1 < length (agents (scheduled ?m eager))" by (simp add: agents_init)
  have 5: "event (agents (scheduled ?m eager) ! 1) = INFECT" by code_simp
  have 6: "(steps (scheduled ?m eager) - 1, unique_id (agents (scheduled ?m eager) ! 1))
             \<notin> fst ` set (itrace ?iv)" by simp
  show ?thesis
    by (rule missing_baseline_entry_raises [OF wf_init 2 two_agents_scheduled 4 5 6])
qed

text \<open>
  C4 as stated fails: with an empty baseline, the infection of agent 1 in the first tick
  makes the run end with KeyError instead of a suppressed infection.
\<close>

theorem missing_baseline_entry_counterexample:
  "map_sum id fst (run eager eager 2 [0] 1 0 1 (Some \<lparr>itrace = []\<rparr>)) = Inl KeyError"
  by code_simp

theorem intervention_suppresses_unless_baseline_infect_witness:
  "(\<exists>m2 rows.
      DiseaseModel_step
        (DiseaseModel_init 2 [0] 1 0
           (Some \<lparr>itrace = [((0, 1), \<lparr>col_State = HEALTHY, col_Event = NOTHING,
                                      col_Cause = -100\<rparr>)]\<rparr>)) eager
        = Inr (m2, advance 4 eager) \<and>
      datacollector m2 = rows \<and>
      rows ! 1 = ((0, 1), \<lparr>col_State = HEALTHY, col_Event = RECOVER, col_Cause = -100\<rparr>)) \<and>
   (\<exists>m2 rows.
      DiseaseModel_step
        (DiseaseModel_init 2 [0] 1 0
           (Some \<lparr>itrace = [((0, 1), \<lparr>col_State = INFECTED, col_Event = INFECT,
                                      col_Cause = 0\<rparr>)]\<rparr>)) eager
        = Inr (m2, advance 4 eager) \<and>
      datacollector m2 = rows \<and>
      rows ! 1 = ((0, 1), \<lparr>col_State = INFECTED, col_Event = INFECT, col_Cause = 0\<rparr>))"
proof -
  let ?iv = "\<lparr>itrace = [((0, 1), \<lparr>col_State = HEALTHY, col_Event = NOTHING,
                                      col_Cause = -100\<rparr>)]\<rparr>"
  let ?iw = "\<lparr>itrace = [((0, 1), \<lparr>col_State = INFECTED, col_Event = INFECT,
                                      col_Cause = 0\<rparr>)]\<rparr>"
  let ?m = "DiseaseModel_init 2 [0] 1 0 (Some ?iv)"
  let ?w = "DiseaseModel_init 2 [0] 1 0 (Some ?iw)"
  have m2: "intervention ?m = Some ?iv" and w2: "intervention ?w = Some ?iw"
    by (simp_all add: init_fields)
  have m4: "1 < length (agents (scheduled ?m eager))"
    and w4: "1 < length (agents (scheduled ?w eager))"
    by (simp_all add: agents_init)
  have m5: "event (agents (scheduled ?m eager) ! 1) = INFECT" by code_simp
  have w5: "event (agents (scheduled ?w eager) ! 1) = INFECT" by code_simp
  have "unique_id (agents (scheduled ?m eager) ! 1) = int 1"
    by (rule wf_unique_id [OF wf_scheduled [OF wf_init] m4])
  then have mu: "unique_id (agents (scheduled ?m eager) ! 1) = 1"
    by (simp only: of_nat_1)
  have "unique_id (agents (scheduled ?w eager) ! 1) = int 1"
    by (rule wf_unique_id [OF wf_scheduled [OF wf_init] w4])
  then have wu: "unique_id (agents (scheduled ?w eager) ! 1) = 1"
    by (simp only: of_nat_1)
  have ws: "state (agents (scheduled ?w eager) ! 1) = INFECTED" by code_simp
  have wc: "cause (agents (scheduled ?w eager) ! 1) = 0" by code_simp
  have m6: "trace_Event (itrace ?iv)
      (steps (scheduled ?m eager) - 1, unique_id (agents (scheduled ?m eager) ! 1)) = Inr NOTHING"
    unfolding mu by (simp add: init_fields trace_Event_def)
  have w6: "trace_Event (itrace ?iw)
      (steps (scheduled ?w eager) - 1, unique_id (agents (scheduled ?w eager) ! 1)) = Inr INFECT"
    unfolding wu by (simp add: init_fields trace_Event_def)
  show ?thesis
    using intervention_suppresses_unless_baseline_infect
            [OF wf_init m2 two_agents_scheduled m4 m5 m6]
          intervention_suppresses_unless_baseline_infect
            [OF wf_init w2 two_agents_scheduled w4 w5 w6]
    unfolding mu wu ws wc by (simp add: init_fields) blast
qed

section \<open>The trace of a run\<close>

lemma collect_datacollector:
  "datacollector (collect m) =
     datacollector m @ map (\<lambda>a. ((steps m - 1, unique_id a), snapshot a)) (agents m)"
  by (simp add: collect_def snapshot_def)

lemma wf_keys:
  assumes "wf_model m"
  shows "map (\<lambda>a. ((s, unique_id a), snapshot a)) (agents m) =
         map (\<lambda>i. ((s, int i), snapshot (agents m ! i))) [0..<length (agents m)]"
  by (rule nth_equalityI) (simp_all add: wf_unique_id [OF assms])

text \<open>What one successful step does to a model of the constructor's shape.\<close>

lemma DiseaseModel_step_effect:
  assumes "wf_model m" "DiseaseModel_step m g = Inr (m', g')"
  shows "2 \<le> length (agents m)" "g' = advance 4 g"
    "\<exists>m2. m' = collect m2 \<and>
        (m2 = scheduled m g \<or> m2 = on_agent (target g (length (agents m))) recover (scheduled m g))"
proof -
  show n: "2 \<le> length (agents m)"
    using assms(2) unfolding DiseaseModel_step_wf [OF assms(1)] by (simp split: if_splits)
  show "g' = advance 4 g"
    using assms(2) unfolding DiseaseModel_step_wf [OF assms(1)]
    by (auto split: if_splits option.splits sum.splits)
  show "\<exists>m2. m' = collect m2 \<and>
        (m2 = scheduled m g \<or> m2 = on_agent (target g (length (agents m))) recover (scheduled m g))"
    using assms(2) n unfolding DiseaseModel_step_wf [OF assms(1)]
    by (auto simp: Intervention_apply_scheduled [OF assms(1) n] Let_def
          split: if_splits option.splits sum.splits)
qed

lemma DiseaseModel_step_fields:
  assumes "wf_model m" "DiseaseModel_step m g = Inr (m', g')"
  shows "wf_model m'" "steps m' = steps m + 1" "length (agents m') = length (agents m)"
    "intervention m' = intervention m"
    "datacollector m' = datacollector m @
        map (\<lambda>i. ((steps m, int i), snapshot (agents m' ! i))) [0..<length (agents m)]"
proof -
  obtain m2 where m2: "m' = collect m2"
    "m2 = scheduled m g \<or> m2 = on_agent (target g (length (agents m))) recover (scheduled m g)"
    using DiseaseModel_step_effect(3) [OF assms] by blast
  have w2: "wf_model m2"
    using m2(2) wf_scheduled [OF assms(1), of g] wf_on_agent_recover by auto
  then show "wf_model m'" by (simp add: m2(1) wf_collect)
  show s: "steps m' = steps m + 1" using m2 by auto
  show l: "length (agents m') = length (agents m)" using m2 by auto
  show "intervention m' = intervention m" using m2 by auto
  have "steps m2 - 1 = steps m" "datacollector m2 = datacollector m"
    "length (agents m2) = length (agents m)" using m2(2) by auto
  then show "datacollector m' = datacollector m @
        map (\<lambda>i. ((steps m, int i), snapshot (agents m' ! i))) [0..<length (agents m)]"
    using wf_keys [OF w2, of "steps m"] by (simp add: m2(1) collect_datacollector)
qed

lemma tick_keys_Suc:
  "tick_keys n s (Suc k) = map (\<lambda>i. (s, int i)) [0..<n] @ tick_keys n (s + 1) k"
proof -
  have "[0..<Suc k] = 0 # map Suc [0..<k]"
    by (simp add: upt_conv_Cons map_Suc_upt del: upt_Suc)
  then show ?thesis
    by (simp add: tick_keys_def comp_def add.assoc del: upt_Suc)
qed

lemma step_loop_invariant:
  assumes "wf_model m" "step_loop k m g = Inr (m', g')"
  shows "wf_model m' \<and> steps m' = steps m + int k \<and> length (agents m') = length (agents m) \<and>
         intervention m' = intervention m \<and>
         map fst (datacollector m') =
           map fst (datacollector m) @ tick_keys (length (agents m)) (steps m) k"
  using assms
proof (induction k arbitrary: m g)
  case 0
  then show ?case by (simp add: tick_keys_def)
next
  case (Suc k)
  from Suc.prems(2) obtain m1 g1 where
    s: "DiseaseModel_step m g = Inr (m1, g1)" and r: "step_loop k m1 g1 = Inr (m', g')"
    by (auto split: sum.splits)
  note f = DiseaseModel_step_fields [OF Suc.prems(1) s]
  note ih = Suc.IH [OF f(1) r]
  have "map fst (datacollector m1) =
      map fst (datacollector m) @ map (\<lambda>i. (steps m, int i)) [0..<length (agents m)]"
    by (simp add: f(5) comp_def)
  with ih show ?case
    by (simp add: f(2,3,4) tick_keys_Suc)
qed

lemma step_loop_add:
  "step_loop (a + b) m g =
     (case step_loop a m g of Inl e \<Rightarrow> Inl e | Inr (m1, g1) \<Rightarrow> step_loop b m1 g1)"
  by (induction a arbitrary: m g) (auto split: sum.splits)

lemma entries_at_keys:
  "entries_at tr t = length (filter (\<lambda>k. fst k = t) (map fst tr))"
  by (simp add: entries_at_def filter_map comp_def)

lemma count_tick_keys:
  "length (filter (\<lambda>k. fst k = t) (tick_keys n 0 T)) = (if 0 \<le> t \<and> t < int T then n else 0)"
proof (induction T)
  case 0
  then show ?case by (simp add: tick_keys_def)
next
  case (Suc T)
  have "filter (\<lambda>k. fst k = t) (map (\<lambda>i. (int T, int i)) [0..<n]) =
        (if t = int T then map (\<lambda>i. (int T, int i)) [0..<n] else [])"
    by (auto simp: filter_map comp_def filter_empty_conv)
  then have "length (filter (\<lambda>k. fst k = t) (tick_keys n 0 (Suc T))) =
      length (filter (\<lambda>k. fst k = t) (tick_keys n 0 T)) + (if t = int T then n else 0)"
    by (simp add: tick_keys_def)
  with Suc show ?case by auto
qed

lemma run_Inr:
  assumes "run seeded g0 N ii pInf pRec T iv = Inr (tr, gT)"
  shows "\<exists>mT. step_loop T (DiseaseModel_init N ii pInf pRec iv) seeded = Inr (mT, gT) \<and>
           tr = datacollector mT"
  using assms by (auto simp: run_def random_seed_def Let_def split: sum.splits)

lemma step_loop_prefix:
  assumes "step_loop T m0 g0 = Inr (mT, gT)" "k < T"
  shows "\<exists>m g m' g'. step_loop k m0 g0 = Inr (m, g) \<and> DiseaseModel_step m g = Inr (m', g')"
proof -
  define j where "j = T - Suc k"
  have T: "T = k + Suc j" using assms(2) by (simp add: j_def)
  have e: "step_loop (k + Suc j) m0 g0 =
      (case step_loop k m0 g0 of Inl e \<Rightarrow> Inl e | Inr (m1, g1) \<Rightarrow> step_loop (Suc j) m1 g1)"
    by (rule step_loop_add)
  show ?thesis
  proof (cases "step_loop k m0 g0")
    case (Inl x)
    with e assms(1) show ?thesis by (simp add: T)
  next
    case (Inr p)
    obtain m g where p: "p = (m, g)" by (cases p)
    have b: "step_loop (Suc j) m g = Inr (mT, gT)"
      using e assms(1) Inr by (simp add: T p)
    show ?thesis
    proof (cases "DiseaseModel_step m g")
      case (Inl x)
      with b show ?thesis by simp
    next
      case (Inr q)
      obtain m' g' where "q = (m', g')" by (cases q)
      with Inr \<open>step_loop k m0 g0 = Inr p\<close> p show ?thesis by blast
    qed
  qed
qed

text \<open>The agents a step leaves alone: all but the activated agent and its chosen neighbour.\<close>

lemma DiseaseModel_step_bystander:
  assumes "wf_model m" "DiseaseModel_step m g = Inr (m', g')"
    and "i < length (agents m)" "i \<noteq> actor g (length (agents m))"
      "i \<noteq> target g (length (agents m))"
  shows "agents m' ! i = (agents m ! i)\<lparr>event := NOTHING, cause := -100\<rparr>"
proof -
  note n = DiseaseModel_step_effect(1) [OF assms(1,2)]
  obtain m2 where m2: "m' = collect m2"
    "m2 = scheduled m g \<or> m2 = on_agent (target g (length (agents m))) recover (scheduled m g)"
    using DiseaseModel_step_effect(3) [OF assms(1,2)] by blast
  have "agents m2 ! i = agents (scheduled m g) ! i"
    using m2(2) assms(3,5) by (auto simp: on_agent_nth)
  then show ?thesis
    using assms(4,5) by (simp add: m2(1) scheduled_nth [OF assms(1) n assms(3)] Let_def)
qed

text \<open>
  The scheduler's step on a model with at least two agents: the draw selects agent
  \<open>actor g n\<close>, that agent's step runs once on the reset model, and the scheduler leaves
  its result with both counters advanced.
\<close>

lemma activation:
  assumes "wf_model m" "2 \<le> length (agents m)"
  shows "actor g (length (agents m)) < length (agents m)"
    "random_choice [0..<length (agents m)] g = Inr (actor g (length (agents m)), advance 1 g)"
    "DiseaseAgent_step (actor g (length (agents m))) (reset_events m) (advance 1 g)
       = Inr (activated m g, advance 4 g)"
    "scheduled m g = (activated m g)\<lparr>steps := steps m + 1, time := time m + 1\<rparr>"
proof -
  let ?n = "length (agents m)"
  have n0: "[0..<?n] \<noteq> []" and n1: "?n \<noteq> 1" using assms(2) by auto
  show r: "actor g ?n < ?n"
    using chosen_in [OF n0, of g] by (simp add: actor_def)
  show "random_choice [0..<?n] g = Inr (actor g ?n, advance 1 g)"
    using n0 by (simp add: random_choice_eq actor_def)
  have r': "actor g ?n < length (agents (reset_events m))" using r by simp
  have a: "advance 3 (advance (Suc 0) g) = advance 4 g"
    "advance 2 (advance (Suc 0) g) = advance 3 g"
    by (simp_all add: advance_def)
  show "DiseaseAgent_step (actor g ?n) (reset_events m) (advance 1 g)
       = Inr (activated m g, advance 4 g)"
    using n1
    by (simp add: DiseaseAgent_step_wf [OF wf_reset_events [OF assms(1)] r'] a activated_def
          Let_def target_def)
  show "scheduled m g = (activated m g)\<lparr>steps := steps m + 1, time := time m + 1\<rparr>"
    by (simp add: scheduled_def activated_def Let_def)
qed

lemma DiseaseModel_step_structure:
  assumes "wf_model m" "DiseaseModel_step m g = Inr (m', g')"
  shows "\<exists>m2. (case intervention m of
                 None \<Rightarrow> Inr (scheduled m g)
               | Some iv \<Rightarrow> Intervention_apply iv (scheduled m g)) = Inr m2 \<and>
              m' = collect m2"
  using assms(2) unfolding DiseaseModel_step_wf [OF assms(1)]
  by (auto split: if_splits option.splits sum.splits)

text \<open>
  C7. Take a run of \<open>T\<close> ticks that returns a trace, and its \<open>k\<close>-th call of step
  (\<open>k < T\<close>). The call succeeds on the model \<open>m\<close> the previous ticks left. Exactly one
  agent is activated: the scheduler draws the agent \<open>actor g N\<close>, the step of that agent
  runs once on the reset model, and the scheduler's result is the result \<open>ma\<close> of that one
  agent step with the counters advanced; the model after the call is the capture of that
  result (after the intervention, when there is one). The counter advances from \<open>k\<close> to
  \<open>k + 1\<close>, and exactly one row per agent is appended, keyed by the completed tick
  \<open>k\<close> and the agent's id; every agent other than the activated one and its chosen
  neighbour is recorded unchanged with event NOTHING. The keys of the returned trace are
  exactly the pairs (tick, id) for the ticks below \<open>T\<close>, so every such tick has exactly
  \<open>N\<close> entries and no other tick has any.
\<close>

theorem tick_completeness:
  assumes "run seeded g0 N ii pInf pRec T iv = Inr (tr, gT)" and "k < T"
  shows "(\<exists>m g ma m2 m' g'.
            step_loop k (DiseaseModel_init N ii pInf pRec iv) seeded = Inr (m, g) \<and>
            DiseaseModel_step m g = Inr (m', g') \<and>
            actor g N < N \<and>
            random_choice [0..<N] g = Inr (actor g N, advance 1 g) \<and>
            DiseaseAgent_step (actor g N) (reset_events m) (advance 1 g) = Inr (ma, g') \<and>
            RandomSingleActivation_step (reset_events m) g =
              Inr (ma\<lparr>steps := steps m + 1, time := time m + 1\<rparr>, g') \<and>
            (case intervention m of
               None \<Rightarrow> Inr (ma\<lparr>steps := steps m + 1, time := time m + 1\<rparr>)
             | Some iv \<Rightarrow>
                 Intervention_apply iv (ma\<lparr>steps := steps m + 1, time := time m + 1\<rparr>))
              = Inr m2 \<and>
            m' = collect m2 \<and>
            steps m = int k \<and> steps m' = steps m + 1 \<and>
            datacollector m' = datacollector m @
              map (\<lambda>i. ((int k, int i), snapshot (agents m' ! i))) [0..<N] \<and>
            (\<forall>i<N. i \<noteq> actor g N \<and> i \<noteq> target g N \<longrightarrow>
               snapshot (agents m' ! i) =
                 \<lparr>col_State = state (agents m ! i), col_Event = NOTHING, col_Cause = -100\<rparr>)) \<and>
         map fst tr = tick_keys N 0 T \<and>
         (\<forall>t. entries_at tr t = (if 0 \<le> t \<and> t < int T then N else 0))"
proof -
  let ?m0 = "DiseaseModel_init N ii pInf pRec iv"
  have l0: "length (agents ?m0) = N" by (simp add: agents_init)
  obtain mT where mT: "step_loop T ?m0 seeded = Inr (mT, gT)" "tr = datacollector mT"
    using run_Inr [OF assms(1)] by blast
  have keys: "map fst tr = tick_keys N 0 T"
    using step_loop_invariant [OF wf_init mT(1)] by (simp add: mT(2) init_fields l0)
  have cnt: "\<forall>t. entries_at tr t = (if 0 \<le> t \<and> t < int T then N else 0)"
    by (simp add: entries_at_keys keys count_tick_keys)
  obtain m g m' g' where a: "step_loop k ?m0 seeded = Inr (m, g)"
    and b: "DiseaseModel_step m g = Inr (m', g')"
    using step_loop_prefix [OF mT(1) assms(2)] by blast
  have inv: "wf_model m" "steps m = int k" "length (agents m) = N"
    using step_loop_invariant [OF wf_init a] by (simp_all add: init_fields l0)
  note f = DiseaseModel_step_fields [OF inv(1) b]
  note e = DiseaseModel_step_effect(1,2) [OF inv(1) b]
  note act = activation [OF inv(1) e(1), of g, unfolded inv(3)]
  let ?ma = "activated m g"
  let ?ms = "?ma\<lparr>steps := steps m + 1, time := time m + 1\<rparr>"
  have sch: "RandomSingleActivation_step (reset_events m) g = Inr (?ms, g')"
    using e(1) by (simp add: RandomSingleActivation_step_wf [OF inv(1)] act(4) e(2))
  obtain m2 where m2: "(case intervention m of
                 None \<Rightarrow> Inr ?ms | Some iv \<Rightarrow> Intervention_apply iv ?ms) = Inr m2"
    "m' = collect m2"
    using DiseaseModel_step_structure [OF inv(1) b] unfolding act(4) by blast
  have bys: "\<forall>i<N. i \<noteq> actor g N \<and> i \<noteq> target g N \<longrightarrow>
               snapshot (agents m' ! i) =
                 \<lparr>col_State = state (agents m ! i), col_Event = NOTHING, col_Cause = -100\<rparr>"
    using DiseaseModel_step_bystander [OF inv(1) b] by (simp add: inv(3) snapshot_def)
  have d: "datacollector m' = datacollector m @
              map (\<lambda>i. ((int k, int i), snapshot (agents m' ! i))) [0..<N]"
    using f(5) by (simp add: inv(2,3))
  have "step_loop k ?m0 seeded = Inr (m, g) \<and>
            DiseaseModel_step m g = Inr (m', g') \<and>
            actor g N < N \<and>
            random_choice [0..<N] g = Inr (actor g N, advance 1 g) \<and>
            DiseaseAgent_step (actor g N) (reset_events m) (advance 1 g) = Inr (?ma, g') \<and>
            RandomSingleActivation_step (reset_events m) g = Inr (?ms, g') \<and>
            (case intervention m of
               None \<Rightarrow> Inr ?ms | Some iv \<Rightarrow> Intervention_apply iv ?ms) = Inr m2 \<and>
            m' = collect m2 \<and>
            steps m = int k \<and> steps m' = steps m + 1 \<and>
            datacollector m' = datacollector m @
              map (\<lambda>i. ((int k, int i), snapshot (agents m' ! i))) [0..<N] \<and>
            (\<forall>i<N. i \<noteq> actor g N \<and> i \<noteq> target g N \<longrightarrow>
               snapshot (agents m' ! i) =
                 \<lparr>col_State = state (agents m ! i), col_Event = NOTHING, col_Cause = -100\<rparr>)"
    using a b act(1,2) act(3) [folded e(2)] sch m2 inv(2) f(2) d bys by blast
  then show ?thesis using keys cnt by blast
qed

theorem tick_completeness_witness:
  "\<exists>tr gT. run eager quiet 3 [0] 1 0 2 None = Inr (tr, gT) \<and>
     map fst tr = [(0, 0), (0, 1), (0, 2), (1, 0), (1, 1), (1, 2)] \<and>
     map (\<lambda>e. col_Event (snd e)) tr = [NOTHING, NOTHING, INFECT, NOTHING, NOTHING, NOTHING] \<and>
     entries_at tr 0 = 3 \<and> entries_at tr 1 = 3 \<and> entries_at tr 2 = 0"
proof -
  let ?m0 = "DiseaseModel_init 3 [0] 1 0 None"
  obtain m1 where m1: "DiseaseModel_step ?m0 eager = Inr (m1, advance 4 eager)"
    by (simp add: DiseaseModel_step_wf [OF wf_init] agents_init init_fields)
  have w1: "wf_model m1" and l1: "length (agents m1) = 3" and i1: "intervention m1 = None"
    using DiseaseModel_step_fields [OF wf_init m1] by (simp_all add: agents_init init_fields)
  obtain m2 where m2: "DiseaseModel_step m1 (advance 4 eager) = Inr (m2, advance 4 (advance 4 eager))"
    by (simp add: DiseaseModel_step_wf [OF w1] l1 i1)
  have r: "run eager quiet 3 [0] 1 0 2 None
             = Inr (datacollector m2, advance 4 (advance 4 eager))"
    by (simp add: run_def random_seed_def numeral_2_eq_2 m1 m2)
  have k: "tick_keys 3 0 2 = [(0, 0), (0, 1), (0, 2), (1, 0), (1, 1), (1, 2)]"
    by code_simp
  have "map_sum id (\<lambda>p. map (\<lambda>e. col_Event (snd e)) (fst p)) (run eager quiet 3 [0] 1 0 2 None)
          = Inr [NOTHING, NOTHING, INFECT, NOTHING, NOTHING, NOTHING]"
    by code_simp
  then have ev: "map (\<lambda>e. col_Event (snd e)) (datacollector m2)
      = [NOTHING, NOTHING, INFECT, NOTHING, NOTHING, NOTHING]"
    by (simp add: r)
  note t = tick_completeness [OF r, of 0, simplified]
  from t have a: "map fst (datacollector m2) = tick_keys 3 0 2" by blast
  from t have b: "\<forall>t. entries_at (datacollector m2) t = (if 0 \<le> t \<and> t < 2 then 3 else 0)"
    by blast
  show ?thesis
    using r a b ev by (simp add: k)
qed

text \<open>
  The event and cause a step leaves on every agent: an INFECT event carries the id of the
  agent activated in that tick, every other event the no-cause sentinel.
\<close>

lemma DiseaseModel_step_cause:
  assumes "wf_model m" "DiseaseModel_step m g = Inr (m', g')" "i < length (agents m)"
  shows "(event (agents m' ! i) = INFECT \<longrightarrow>
            cause (agents m' ! i) = int (actor g (length (agents m))) \<and>
            actor g (length (agents m)) < length (agents m)) \<and>
         (event (agents m' ! i) \<noteq> INFECT \<longrightarrow> cause (agents m' ! i) = -100)"
proof -
  let ?n = "length (agents m)"
  note n = DiseaseModel_step_effect(1) [OF assms(1,2)]
  have n0: "[0..<?n] \<noteq> []" using n by auto
  have r: "actor g ?n < ?n"
    using chosen_in [OF n0, of g] by (simp add: actor_def)
  obtain m2 where m2: "m' = collect m2"
    "m2 = scheduled m g \<or> m2 = on_agent (target g ?n) recover (scheduled m g)"
    using DiseaseModel_step_effect(3) [OF assms(1,2)] by blast
  have s: "(event (agents (scheduled m g) ! i) = INFECT \<longrightarrow>
              cause (agents (scheduled m g) ! i) = int (actor g ?n)) \<and>
           (event (agents (scheduled m g) ! i) \<noteq> INFECT \<longrightarrow>
              cause (agents (scheduled m g) ! i) = -100)"
    by (simp add: scheduled_nth [OF assms(1) n assms(3)] Let_def infect_def recover_def)
  have "agents m2 ! i = agents (scheduled m g) ! i \<or>
        agents m2 ! i = recover (agents (scheduled m g) ! i)"
    using m2(2) assms(3) by (auto simp: on_agent_nth)
  then show ?thesis
    using s r by (auto simp: m2(1) recover_def)
qed

text \<open>
  An agent that a step leaves with event INFECT is the neighbour chosen by the agent
  activated in that step; the activated agent was INFECTED, its step called \<^verbatim>\<open>infect\<close>
  on the neighbour with its own id, and that id is the recorded cause.
\<close>

lemma DiseaseModel_step_infect:
  assumes "wf_model m" "DiseaseModel_step m g = Inr (m', g')" "i < length (agents m)"
    and "event (agents m' ! i) = INFECT"
  shows "i = target g (length (agents m))"
    "state (agents m ! actor g (length (agents m))) = INFECTED"
    "cause (agents m' ! i) = unique_id (agents m ! actor g (length (agents m)))"
    "agents (activated m g) ! i =
       infect (unique_id (agents m ! actor g (length (agents m)))) (agents (reset_events m) ! i)"
proof -
  let ?n = "length (agents m)"
  note n = DiseaseModel_step_effect(1) [OF assms(1,2)]
  note act = activation [OF assms(1) n, of g]
  have u: "unique_id (agents m ! actor g ?n) = int (actor g ?n)"
    using assms(1) act(1) by (rule wf_unique_id)
  obtain m2 where m2: "m' = collect m2"
    "m2 = scheduled m g \<or> m2 = on_agent (target g ?n) recover (scheduled m g)"
    using DiseaseModel_step_effect(3) [OF assms(1,2)] by blast
  have "agents m2 ! i = agents (scheduled m g) ! i \<or>
        agents m2 ! i = recover (agents (scheduled m g) ! i)"
    using m2(2) assms(3) by (auto simp: on_agent_nth)
  then have same: "agents m' ! i = agents (scheduled m g) ! i"
    using assms(4) by (auto simp: m2(1) recover_def)
  then have ev: "event (agents (scheduled m g) ! i) = INFECT" using assms(4) by simp
  note sn = scheduled_nth [OF assms(1) n assms(3), of g]
  show t: "i = target g ?n"
    using ev assms(1) n assms(3) by (intro scheduled_infect_only_target)
  show "state (agents m ! actor g ?n) = INFECTED"
    using ev unfolding sn by (simp add: Let_def infect_def recover_def split: if_splits)
  have n1: "?n \<noteq> 1" using n by simp
  have ne: "target g ?n \<noteq> actor g ?n"
    using chosen_others [OF act(1) n1, of "advance 3 g"] by (simp add: target_def)
  have ag: "agents (scheduled m g) ! i =
      infect (int (actor g ?n)) ((agents m ! i)\<lparr>event := NOTHING, cause := -100\<rparr>)"
    using ev ne unfolding sn by (simp add: Let_def infect_def recover_def split: if_splits)
  show "cause (agents m' ! i) = unique_id (agents m ! actor g ?n)"
    by (simp add: same ag u infect_def)
  have "agents (activated m g) ! i = agents (scheduled m g) ! i"
    by (simp add: act(4))
  then show "agents (activated m g) ! i =
       infect (unique_id (agents m ! actor g ?n)) (agents (reset_events m) ! i)"
    using assms(3) by (simp add: ag u reset_events_nth)
qed

text \<open>
  C10. In every entry of the trace a run returns, the cause is the no-cause sentinel
  \<open>-100\<close> exactly when the event is not INFECT (so for every NOTHING and every RECOVER
  entry). For an INFECT entry the cause is the id of the infecting agent: the entry
  belongs to a tick \<open>k\<close> of the run and to the neighbour chosen by the agent activated in
  that tick; the activated agent was INFECTED, its step called \<^verbatim>\<open>infect\<close> on the
  neighbour with its own id, and the recorded cause is that id, a value in \<open>[0, N)\<close>.
\<close>

theorem cause_sentinel_iff_not_infect:
  assumes "run seeded g0 N ii pInf pRec T iv = Inr (tr, gT)" and "e \<in> set tr"
  shows "(col_Cause (snd e) = -100 \<longleftrightarrow> col_Event (snd e) \<noteq> INFECT) \<and>
         (col_Event (snd e) = INFECT \<longrightarrow>
            (\<exists>k m g ma.
                k < T \<and>
                step_loop k (DiseaseModel_init N ii pInf pRec iv) seeded = Inr (m, g) \<and>
                actor g N < N \<and>
                DiseaseAgent_step (actor g N) (reset_events m) (advance 1 g)
                  = Inr (ma, advance 4 g) \<and>
                state (agents m ! actor g N) = INFECTED \<and>
                agents ma ! target g N =
                  infect (unique_id (agents m ! actor g N)) (agents (reset_events m) ! target g N) \<and>
                fst e = (int k, int (target g N)) \<and>
                col_Cause (snd e) = unique_id (agents m ! actor g N) \<and>
                0 \<le> col_Cause (snd e) \<and> col_Cause (snd e) < int N))"
proof -
  let ?m0 = "DiseaseModel_init N ii pInf pRec iv"
  have l0: "length (agents ?m0) = N" by (simp add: agents_init)
  define Q where "Q = (\<lambda>T (e :: (int \<times> int) \<times> row).
         (col_Cause (snd e) = -100 \<longleftrightarrow> col_Event (snd e) \<noteq> INFECT) \<and>
         (col_Event (snd e) = INFECT \<longrightarrow>
            (\<exists>k m g ma.
                k < T \<and> step_loop k ?m0 seeded = Inr (m, g) \<and> actor g N < N \<and>
                DiseaseAgent_step (actor g N) (reset_events m) (advance 1 g)
                  = Inr (ma, advance 4 g) \<and>
                state (agents m ! actor g N) = INFECTED \<and>
                agents ma ! target g N =
                  infect (unique_id (agents m ! actor g N)) (agents (reset_events m) ! target g N) \<and>
                fst e = (int k, int (target g N)) \<and>
                col_Cause (snd e) = unique_id (agents m ! actor g N) \<and>
                0 \<le> col_Cause (snd e) \<and> col_Cause (snd e) < int N)))"
  have mono: "Q T e \<Longrightarrow> Q (Suc T) e" for T e
    unfolding Q_def by (meson less_Suc_eq)
  have all: "step_loop T ?m0 seeded = Inr (mT, gT) \<Longrightarrow> \<forall>e\<in>set (datacollector mT). Q T e"
    for T mT gT
  proof (induction T arbitrary: mT gT)
    case 0
    then show ?case by (auto simp: init_fields)
  next
    case (Suc T)
    have "step_loop (T + 1) ?m0 seeded = Inr (mT, gT)" using Suc.prems by simp
    then obtain m g where a: "step_loop T ?m0 seeded = Inr (m, g)"
      and b: "DiseaseModel_step m g = Inr (mT, gT)"
      unfolding step_loop_add by (auto split: sum.splits)
    have inv: "wf_model m" "steps m = int T" "length (agents m) = N"
      using step_loop_invariant [OF wf_init a] by (simp_all add: init_fields l0)
    note f = DiseaseModel_step_fields [OF inv(1) b]
    note n = DiseaseModel_step_effect(1) [OF inv(1) b]
    note act = activation [OF inv(1) n, of g, unfolded inv(3)]
    have new: "Q (Suc T) ((int T, int i), snapshot (agents mT ! i))" if i: "i < N" for i
    proof -
      have il: "i < length (agents m)" using i by (simp add: inv(3))
      note c = DiseaseModel_step_cause [OF inv(1) b il]
      have iff: "cause (agents mT ! i) = -100 \<longleftrightarrow> event (agents mT ! i) \<noteq> INFECT"
        using c by auto
      show ?thesis
      proof (cases "event (agents mT ! i) = INFECT")
        case False
        with iff show ?thesis by (simp add: Q_def snapshot_def)
      next
        case True
        note d = DiseaseModel_step_infect [OF inv(1) b il True, unfolded inv(3)]
        have u: "unique_id (agents m ! actor g N) = int (actor g N)"
          using wf_unique_id [OF inv(1), of "actor g N"] act(1) by (simp add: inv(3))
        have "T < Suc T \<and> step_loop T ?m0 seeded = Inr (m, g) \<and> actor g N < N \<and>
                DiseaseAgent_step (actor g N) (reset_events m) (advance 1 g)
                  = Inr (activated m g, advance 4 g) \<and>
                state (agents m ! actor g N) = INFECTED \<and>
                agents (activated m g) ! target g N =
                  infect (unique_id (agents m ! actor g N)) (agents (reset_events m) ! target g N) \<and>
                (int T, int i) = (int T, int (target g N)) \<and>
                cause (agents mT ! i) = unique_id (agents m ! actor g N) \<and>
                0 \<le> cause (agents mT ! i) \<and> cause (agents mT ! i) < int N"
          using a act(1,3) d(2,3) d(4) [unfolded d(1)] d(1) u by simp
        then show ?thesis
          using iff True unfolding Q_def by (simp add: snapshot_def) blast
      qed
    qed
    have old: "\<forall>e\<in>set (datacollector m). Q (Suc T) e"
      using Suc.IH [OF a] mono by blast
    show ?case
      unfolding f(5) inv(2,3) using old new by auto
  qed
  obtain mT where mT: "step_loop T ?m0 seeded = Inr (mT, gT)" "tr = datacollector mT"
    using run_Inr [OF assms(1)] by blast
  have "Q T e" using all [OF mT(1)] assms(2) by (simp add: mT(2))
  then show ?thesis unfolding Q_def .
qed


theorem cause_sentinel_iff_not_infect_witness:
  "\<exists>tr gT. run eager quiet 2 [0] 1 0 1 None = Inr (tr, gT) \<and>
     tr ! 1 = ((0, 1), \<lparr>col_State = INFECTED, col_Event = INFECT, col_Cause = 0\<rparr>) \<and>
     (col_Cause (snd (tr ! 1)) = -100 \<longleftrightarrow> col_Event (snd (tr ! 1)) \<noteq> INFECT) \<and>
     (\<exists>k m g ma.
         k < 1 \<and>
         step_loop k (DiseaseModel_init 2 [0] 1 0 None) eager = Inr (m, g) \<and>
         actor g 2 < 2 \<and>
         DiseaseAgent_step (actor g 2) (reset_events m) (advance 1 g) = Inr (ma, advance 4 g) \<and>
         state (agents m ! actor g 2) = INFECTED \<and>
         agents ma ! target g 2 =
           infect (unique_id (agents m ! actor g 2)) (agents (reset_events m) ! target g 2) \<and>
         fst (tr ! 1) = (int k, int (target g 2)) \<and>
         col_Cause (snd (tr ! 1)) = unique_id (agents m ! actor g 2) \<and>
         0 \<le> col_Cause (snd (tr ! 1)) \<and> col_Cause (snd (tr ! 1)) < int 2)"
proof -
  let ?m0 = "DiseaseModel_init 2 [0] 1 0 None"
  let ?tr = "datacollector (collect (scheduled ?m0 eager))"
  have r: "run eager quiet 2 [0] 1 0 1 None = Inr (?tr, advance 4 eager)"
    by (simp add: run_def random_seed_def DiseaseModel_step_wf [OF wf_init] agents_init
          init_fields)
  have v: "?tr ! 1 = ((0, 1), \<lparr>col_State = INFECTED, col_Event = INFECT, col_Cause = 0\<rparr>)"
    by code_simp
  have l: "length ?tr = 2"
    by (simp add: collect_datacollector init_fields agents_init)
  then have i: "?tr ! 1 \<in> set ?tr"
    by (intro nth_mem) simp
  have ev: "col_Event (snd (?tr ! 1)) = INFECT" by (simp only: v) simp
  note t = cause_sentinel_iff_not_infect [OF r i]
  from t have a: "col_Cause (snd (?tr ! 1)) = -100 \<longleftrightarrow> col_Event (snd (?tr ! 1)) \<noteq> INFECT"
    by (rule conjunct1)
  from t ev have b: "\<exists>k m g ma.
         k < 1 \<and>
         step_loop k ?m0 eager = Inr (m, g) \<and>
         actor g 2 < 2 \<and>
         DiseaseAgent_step (actor g 2) (reset_events m) (advance 1 g) = Inr (ma, advance 4 g) \<and>
         state (agents m ! actor g 2) = INFECTED \<and>
         agents ma ! target g 2 =
           infect (unique_id (agents m ! actor g 2)) (agents (reset_events m) ! target g 2) \<and>
         fst (?tr ! 1) = (int k, int (target g 2)) \<and>
         col_Cause (snd (?tr ! 1)) = unique_id (agents m ! actor g 2) \<and>
         0 \<le> col_Cause (snd (?tr ! 1)) \<and> col_Cause (snd (?tr ! 1)) < int 2"
    by (rule conjunct2 [THEN mp])
  show ?thesis
    using r v a b by blast
qed

section \<open>The final tick of a run\<close>





section \<open>The states of a run without intervention\<close>






section \<open>Runs with an intervention on a complete baseline\<close>











section \<open>The stream of seed 1\<close>





section \<open>The experiment driver\<close>

lemma fmt_d_0: "fmt_d 0 = ''0''"
  by code_simp

lemma fmt_d_1: "fmt_d 1 = ''1''"
  by code_simp









text \<open>
  Whatever the generator, the second loop reports for both of its variants what the first
  loop reported for its last variant.
\<close>

lemma main_second_loop_any_generator:
  assumes "main seeded g = Inr (causal_rel, g')"
  shows "causal_rel ''tr_simpleCF2_wo0'' = causal_rel ''tr_simpleCF1_wo1'' \<and>
         causal_rel ''tr_simpleCF2_wo1'' = causal_rel ''tr_simpleCF1_wo1''"
  using assms
  by (auto simp: main_def Let_def fmt_d_0 fmt_d_1 split: sum.splits prod.splits)

end
